theory Spec2Isabelle
  imports Main "HOL-Library.Word" "HOL-Library.AList"
begin

unbundle bit_operations_syntax

section \<open>Data model of \<open>DeferredLayerUpdater\<close> (libs/hwui/DeferredLayerUpdater.h)\<close>

text \<open>
  C++ \<open>int\<close> and \<open>uint32_t\<close> are 32-bit words, a \<open>float\<close> is its IEEE 754 bit
  pattern. Pointers are addresses (\<open>nat\<close>), a pointer that may be \<open>nullptr\<close> is an
  \<open>option\<close>.
\<close>

type_synonym int32 = "32 word"
type_synonym uint32 = "32 word"
type_synonym addr = nat
type_synonym float = "32 word"

text \<open>An \<open>SkMatrix\<close> value is its nine scalars (bit patterns of the floats).\<close>

type_synonym SkMatrix = "32 word list"

text \<open>
  \<open>ImageSlot\<close>, lines 107 to 130: the dataspace of the current image, the buffer last
  seen in the slot and the reference the slot holds to its texture resource handle.
\<close>

record ImageSlot =
  mDataspace :: int32
  mBuffer :: "addr option"
  mTextureRelease :: "addr option"

text \<open>
  The fields of the updater, lines 140 to 157, in the order of the header. The
  \<open>std::map\<close> from slot id to \<open>ImageSlot\<close> is a list of its entries, one per key.
  \<open>mRenderState\<close> stands for the GPU context the render state gives access to.
\<close>

record DeferredLayerUpdater =
  mImageSlots :: "(int32 \<times> ImageSlot) list"
  mRenderState :: addr
  mWidth :: int32
  mHeight :: int32
  mBlend :: bool
  mColorFilter :: "addr option"
  mAlpha :: int32
  mMode :: nat
  mSurfaceTexture :: "addr option"
  mTransform :: "addr option"
  mGLContextAttached :: bool
  mUpdateTexImage :: bool
  mCurrentSlot :: int32
  mLayer :: "addr option"

section \<open>The inline operations of the header\<close>

text \<open>
  \<open>setSize\<close>, lines 54 to 61, and \<open>setBlend\<close>, lines 66 to 72: the result is the
  returned flag and the updated object.
\<close>

definition setSize :: "int32 \<Rightarrow> int32 \<Rightarrow> DeferredLayerUpdater \<Rightarrow> bool \<times> DeferredLayerUpdater" where
  "setSize width height u =
     (if mWidth u \<noteq> width \<or> mHeight u \<noteq> height
      then (True, u\<lparr>mWidth := width, mHeight := height\<rparr>)
      else (False, u))"

definition getWidth :: "DeferredLayerUpdater \<Rightarrow> int32" where
  "getWidth u = mWidth u"

definition getHeight :: "DeferredLayerUpdater \<Rightarrow> int32" where
  "getHeight u = mHeight u"

definition setBlend :: "bool \<Rightarrow> DeferredLayerUpdater \<Rightarrow> bool \<times> DeferredLayerUpdater" where
  "setBlend blend u =
     (if blend \<noteq> mBlend u then (True, u\<lparr>mBlend := blend\<rparr>) else (False, u))"

text \<open>\<open>updateTexImage\<close>, line 76.\<close>

definition updateTexImage :: "DeferredLayerUpdater \<Rightarrow> DeferredLayerUpdater" where
  "updateTexImage u = u\<lparr>mUpdateTexImage := True\<rparr>"

section \<open>\<open>setTransform\<close> and the heap of matrices\<close>

text \<open>
  \<open>setTransform\<close>, lines 78 to 81, deletes one \<open>SkMatrix\<close> and allocates another, so the
  model carries the heap of matrices. An address names one matrix object for good: cell
  \<open>a\<close> of the heap is the matrix at address \<open>a\<close>, or \<open>None\<close> once it has been deleted,
  and \<open>new\<close> extends the heap by one cell (an allocator that hands a freed address out
  again gives the new object a new name here). Deleting or reading a matrix that is not
  live is undefined behaviour in C++; the model returns a fault there.
\<close>

datatype fault = UseAfterFree | InvalidDelete | DoubleRelease

type_synonym matrix_heap = "SkMatrix option list"

definition live :: "matrix_heap \<Rightarrow> addr \<Rightarrow> bool" where
  "live h a = (a < length h \<and> h ! a \<noteq> None)"

text \<open>\<open>delete p\<close>: nothing happens for \<open>nullptr\<close>.\<close>

definition delete_matrix :: "addr option \<Rightarrow> matrix_heap \<Rightarrow> fault + matrix_heap" where
  "delete_matrix p h =
     (case p of
        None \<Rightarrow> Inr h
      | Some a \<Rightarrow> if live h a then Inr (h[a := None]) else Inl InvalidDelete)"

text \<open>Reading \<open>*p\<close> for the copy constructor, and \<open>new SkMatrix(m)\<close>.\<close>

definition read_matrix :: "addr \<Rightarrow> matrix_heap \<Rightarrow> fault + SkMatrix" where
  "read_matrix a h =
     (if a < length h then (case h ! a of Some m \<Rightarrow> Inr m | None \<Rightarrow> Inl UseAfterFree)
      else Inl UseAfterFree)"

definition new_matrix :: "SkMatrix \<Rightarrow> matrix_heap \<Rightarrow> addr \<times> matrix_heap" where
  "new_matrix m h = (length h, h @ [Some m])"

text \<open>
  \<open>setTransform\<close> in the order of the source: \<open>delete mTransform\<close> first, then the copy
  of \<open>*matrix\<close> when \<open>matrix\<close> is not null.
\<close>

definition setTransform ::
  "addr option \<Rightarrow> matrix_heap \<times> DeferredLayerUpdater \<Rightarrow> fault + matrix_heap \<times> DeferredLayerUpdater" where
  "setTransform matrix st =
     (case st of (h, u) \<Rightarrow>
        (case delete_matrix (mTransform u) h of
           Inl e \<Rightarrow> Inl e
         | Inr h1 \<Rightarrow>
             (case matrix of
                None \<Rightarrow> Inr (h1, u\<lparr>mTransform := None\<rparr>)
              | Some p \<Rightarrow>
                  (case read_matrix p h1 of
                     Inl e \<Rightarrow> Inl e
                   | Inr m \<Rightarrow>
                       (case new_matrix m h1 of
                          (a, h2) \<Rightarrow> Inr (h2, u\<lparr>mTransform := Some a\<rparr>))))))"

definition getTransform :: "DeferredLayerUpdater \<Rightarrow> addr option" where
  "getTransform u = mTransform u"

text \<open>
  The updater owns its transform: the stored pointer is null or a live matrix. An
  argument of the caller's own is null or a live matrix other than the one the updater
  owns.
\<close>

definition owns_transform :: "matrix_heap \<Rightarrow> DeferredLayerUpdater \<Rightarrow> bool" where
  "owns_transform h u = (case mTransform u of None \<Rightarrow> True | Some q \<Rightarrow> live h q)"

definition callers_matrix :: "matrix_heap \<Rightarrow> DeferredLayerUpdater \<Rightarrow> addr option \<Rightarrow> bool" where
  "callers_matrix h u m = (case m of None \<Rightarrow> True | Some p \<Rightarrow> live h p \<and> mTransform u \<noteq> Some p)"

text \<open>A heap with two matrices, for the examples.\<close>

definition heap1 :: matrix_heap where
  "heap1 = [Some [1, 0, 0, 0, 1, 0, 0, 0, 1], Some [2, 0, 0, 0, 2, 0, 0, 0, 1]]"

text \<open>
  A sequence of setter calls, run from left to right; the flags returned are collected in
  call order.
\<close>

datatype setter_call = SetSize int32 int32 | SetBlend bool

fun run_call :: "setter_call \<Rightarrow> DeferredLayerUpdater \<Rightarrow> bool \<times> DeferredLayerUpdater" where
  "run_call (SetSize w h) u = setSize w h u"
| "run_call (SetBlend b) u = setBlend b u"

fun run_calls :: "setter_call list \<Rightarrow> DeferredLayerUpdater \<Rightarrow> bool list \<times> DeferredLayerUpdater" where
  "run_calls [] u = ([], u)"
| "run_calls (c # cs) u =
     (case run_call c u of (r, u') \<Rightarrow>
        (case run_calls cs u' of (rs, u'') \<Rightarrow> (r # rs, u'')))"

text \<open>
  The words of the specification for the returned flag: the argument of the call differs
  from the value the updater stores (for \<open>setSize\<close>, the pair of width and height).
\<close>

fun arg_differs :: "setter_call \<Rightarrow> DeferredLayerUpdater \<Rightarrow> bool" where
  "arg_differs (SetSize w h) u = ((mWidth u, mHeight u) \<noteq> (w, h))"
| "arg_differs (SetBlend b) u = (mBlend u \<noteq> b)"

text \<open>
  A new updater: the in-class initialisers of the header (\<open>mMode\<close> is \<open>kSrcOver\<close>, the
  fourth value of \<open>SkBlendMode\<close>), and null or false for the members the header leaves
  to the constructor.
\<close>

definition updater0 :: DeferredLayerUpdater where
  "updater0 = \<lparr>mImageSlots = [], mRenderState = 0, mWidth = 0, mHeight = 0,
     mBlend = False, mColorFilter = None, mAlpha = 255, mMode = 3,
     mSurfaceTexture = None, mTransform = None, mGLContextAttached = False,
     mUpdateTexImage = False, mCurrentSlot = - 1, mLayer = None\<rparr>"

section \<open>Data model of \<open>Paint\<close> (libs/hwui/hwui/PaintImpl.cpp)\<close>

text \<open>
  \<open>SkPaint\<close> and \<open>SkFont\<close> are the 2-D library's classes: the model keeps the state this
  file reads and writes, and one field for everything else they hold.
\<close>

datatype SkFilterQuality =
  kNone_SkFilterQuality | kLow_SkFilterQuality | kMedium_SkFilterQuality | kHigh_SkFilterQuality

datatype Edging = kAlias | kAntiAlias | kSubpixelAntiAlias

record SkPaint =
  fAntiAlias :: bool
  fDither :: bool
  fFilterQuality :: SkFilterQuality
  fShader :: "addr option"
  fImageFilter :: "addr option"
  fPaintOther :: nat

record SkFont =
  fEmbolden :: bool
  fLinearMetrics :: bool
  fSubpixel :: bool
  fEmbeddedBitmaps :: bool
  fForceAutoHinting :: bool
  fEdging :: Edging
  fFontOther :: nat

datatype FamilyVariant = DEFAULT | COMPACT | ELEGANT
datatype Align = kLeft_Align | kCenter_Align | kRight_Align

text \<open>
  A \<open>uirenderer::Shader\<close> object as \<open>setShader\<close> sees it: where it lives and what
  its \<open>asSkShader()\<close> and \<open>asSkImageFilter()\<close> return.
\<close>

record Shader =
  shaderAddr :: addr
  asSkShader :: "addr option"
  asSkImageFilter :: "addr option"

text \<open>
  \<open>Paint\<close> extends \<open>SkPaint\<close>; its members are those the copy constructor, lines 35 to
  50, lists, with the types \<open>Paint.h\<close> declares them with (the header is not among the
  sources). The two spacings are C++ floats, kept as their IEEE 754 bit patterns.
\<close>

record Paint = SkPaint +
  mFont :: SkFont
  mLooper :: "addr option"
  mLetterSpacing :: float
  mWordSpacing :: float
  mFontFeatureSettings :: string
  mMinikinLocaleListId :: uint32
  mFamilyVariant :: FamilyVariant
  mHyphenEdit :: uint32
  mTypeface :: "addr option"
  mAlign :: Align
  mStrikeThru :: bool
  mUnderline :: bool
  mDevKern :: bool
  mShader :: "Shader option"

text \<open>The legacy flag constants, lines 138 to 151.\<close>

definition sAntiAliasFlag :: uint32 where "sAntiAliasFlag = 0x01"
definition sFilterBitmapFlag :: uint32 where "sFilterBitmapFlag = 0x02"
definition sDitherFlag :: uint32 where "sDitherFlag = 0x04"
definition sFakeBoldFlag :: uint32 where "sFakeBoldFlag = 0x020"
definition sLinearMetrics :: uint32 where "sLinearMetrics = 0x040"
definition sSubpixelMetrics :: uint32 where "sSubpixelMetrics = 0x080"
definition sEmbeddedBitmaps :: uint32 where "sEmbeddedBitmaps = 0x400"
definition sForceAutoHinting :: uint32 where "sForceAutoHinting = 0x800"
definition sUnderlineFlag :: uint32 where "sUnderlineFlag = 0x08"
definition sStrikeThruFlag :: uint32 where "sStrikeThruFlag = 0x10"
definition sDevKernFlag :: uint32 where "sDevKernFlag = 0x100"

text \<open>
  \<open>-(int)b\<close> for a \<open>bool\<close> \<open>b\<close>, converted to \<open>uint32_t\<close> by the \<open>&\<close> that follows:
  all ones when \<open>b\<close> holds, zero otherwise.
\<close>

definition neg_int :: "bool \<Rightarrow> uint32" where
  "neg_int b = - (of_bool b)"

text \<open>\<open>paintToLegacyFlags\<close> and \<open>fontToLegacyFlags\<close>, lines 153 to 171.\<close>

definition paintToLegacyFlags :: "'a SkPaint_scheme \<Rightarrow> uint32" where
  "paintToLegacyFlags paint =
     (let flags = 0;
          flags = flags OR (neg_int (fAntiAlias paint) AND sAntiAliasFlag);
          flags = flags OR (neg_int (fDither paint) AND sDitherFlag)
      in if fFilterQuality paint \<noteq> kNone_SkFilterQuality
         then flags OR sFilterBitmapFlag else flags)"

definition fontToLegacyFlags :: "SkFont \<Rightarrow> uint32" where
  "fontToLegacyFlags font =
     (let flags = 0;
          flags = flags OR (neg_int (fEmbolden font) AND sFakeBoldFlag);
          flags = flags OR (neg_int (fLinearMetrics font) AND sLinearMetrics);
          flags = flags OR (neg_int (fSubpixel font) AND sSubpixelMetrics);
          flags = flags OR (neg_int (fEmbeddedBitmaps font) AND sEmbeddedBitmaps);
          flags = flags OR (neg_int (fForceAutoHinting font) AND sForceAutoHinting)
      in flags)"

text \<open>
  \<open>applyLegacyFlagsToPaint\<close> and \<open>applyLegacyFlagsToFont\<close>, lines 173 to 196. The first
  takes an \<open>SkPaint*\<close>, so the non-virtual \<open>setAntiAlias\<close> it calls is \<open>SkPaint\<close>'s.
\<close>

definition applyLegacyFlagsToPaint :: "uint32 \<Rightarrow> 'a SkPaint_scheme \<Rightarrow> 'a SkPaint_scheme" where
  "applyLegacyFlagsToPaint flags paint =
     (let paint = paint\<lparr>fAntiAlias := (flags AND sAntiAliasFlag \<noteq> 0)\<rparr>;
          paint = paint\<lparr>fDither := (flags AND sDitherFlag \<noteq> 0)\<rparr>
      in if flags AND sFilterBitmapFlag \<noteq> 0
         then paint\<lparr>fFilterQuality := kLow_SkFilterQuality\<rparr>
         else paint\<lparr>fFilterQuality := kNone_SkFilterQuality\<rparr>)"

definition applyLegacyFlagsToFont :: "uint32 \<Rightarrow> SkFont \<Rightarrow> SkFont" where
  "applyLegacyFlagsToFont flags font =
     (let font = font\<lparr>fEmbolden := (flags AND sFakeBoldFlag \<noteq> 0)\<rparr>;
          font = font\<lparr>fLinearMetrics := (flags AND sLinearMetrics \<noteq> 0)\<rparr>;
          font = font\<lparr>fSubpixel := (flags AND sSubpixelMetrics \<noteq> 0)\<rparr>;
          font = font\<lparr>fEmbeddedBitmaps := (flags AND sEmbeddedBitmaps \<noteq> 0)\<rparr>;
          font = font\<lparr>fForceAutoHinting := (flags AND sForceAutoHinting \<noteq> 0)\<rparr>
      in if flags AND sAntiAliasFlag \<noteq> 0
         then font\<lparr>fEdging := kAntiAlias\<rparr>
         else font\<lparr>fEdging := kAlias\<rparr>)"

text \<open>\<open>Paint::getJavaFlags\<close> and \<open>Paint::setJavaFlags\<close>, lines 206 to 220.\<close>

definition getJavaFlags :: "Paint \<Rightarrow> uint32" where
  "getJavaFlags this =
     (let flags = paintToLegacyFlags this OR fontToLegacyFlags (mFont this);
          flags = flags OR (neg_int (mStrikeThru this) AND sStrikeThruFlag);
          flags = flags OR (neg_int (mUnderline this) AND sUnderlineFlag);
          flags = flags OR (neg_int (mDevKern this) AND sDevKernFlag)
      in flags)"

definition setJavaFlags :: "uint32 \<Rightarrow> Paint \<Rightarrow> Paint" where
  "setJavaFlags flags this =
     (let this = applyLegacyFlagsToPaint flags this;
          this = this\<lparr>mFont := applyLegacyFlagsToFont flags (mFont this)\<rparr>;
          this = this\<lparr>mStrikeThru := (flags AND sStrikeThruFlag \<noteq> 0)\<rparr>;
          this = this\<lparr>mUnderline := (flags AND sUnderlineFlag \<noteq> 0)\<rparr>;
          this = this\<lparr>mDevKern := (flags AND sDevKernFlag \<noteq> 0)\<rparr>
      in this)"

text \<open>\<open>Paint::GetSkPaintJavaFlags\<close> and \<open>Paint::SetSkPaintJavaFlags\<close>, lines 198 to 204.\<close>

definition GetSkPaintJavaFlags :: "'a SkPaint_scheme \<Rightarrow> uint32" where
  "GetSkPaintJavaFlags paint = paintToLegacyFlags paint"

definition SetSkPaintJavaFlags :: "'a SkPaint_scheme \<Rightarrow> uint32 \<Rightarrow> 'a SkPaint_scheme" where
  "SetSkPaintJavaFlags paint flags = applyLegacyFlagsToPaint flags paint"

text \<open>
  The default constructor, lines 21 to 33: a default \<open>SkPaint\<close> and \<open>SkFont\<close>, the font's
  edging set to \<open>kAlias\<close>, the members the initialiser list names, and the remaining
  members at their zero values.
\<close>

definition SkFont_init :: SkFont where
  "SkFont_init = \<lparr>fEmbolden = False, fLinearMetrics = False, fSubpixel = False,
     fEmbeddedBitmaps = False, fForceAutoHinting = False, fEdging = kAntiAlias,
     fFontOther = 0\<rparr>"

definition Paint_init :: Paint where
  "Paint_init = \<lparr>fAntiAlias = False, fDither = False, fFilterQuality = kNone_SkFilterQuality,
     fShader = None, fImageFilter = None, fPaintOther = 0,
     mFont = SkFont_init\<lparr>fEdging := kAlias\<rparr>, mLooper = None,
     mLetterSpacing = 0, mWordSpacing = 0, mFontFeatureSettings = [],
     mMinikinLocaleListId = 0, mFamilyVariant = DEFAULT, mHyphenEdit = 0, mTypeface = None,
     mAlign = kLeft_Align, mStrikeThru = False, mUnderline = False, mDevKern = False,
     mShader = None\<rparr>"

text \<open>\<open>Paint::setShader\<close>, lines 74 to 92.\<close>

definition setShader :: "Shader option \<Rightarrow> Paint \<Rightarrow> Paint" where
  "setShader shader this =
     (let this =
        (case shader of
           Some sh \<Rightarrow>
             (case asSkShader sh of
                Some skShader \<Rightarrow> this\<lparr>fShader := Some skShader, fImageFilter := None\<rparr>
              | None \<Rightarrow> this\<lparr>fShader := None, fImageFilter := asSkImageFilter sh\<rparr>)
         | None \<Rightarrow> this\<lparr>fShader := None, fImageFilter := None\<rparr>)
      in this\<lparr>mShader := shader\<rparr>)"

text \<open>
  The C++ \<open>==\<close> on two floats, on their bit patterns: a NaN (exponent all ones, mantissa
  not zero) equals nothing, the two zeros equal each other, any other value equals itself
  only.
\<close>

definition is_nan :: "float \<Rightarrow> bool" where
  "is_nan x = (x AND 0x7F800000 = 0x7F800000 \<and> x AND 0x007FFFFF \<noteq> 0)"

definition float_eq :: "float \<Rightarrow> float \<Rightarrow> bool" where
  "float_eq x y =
     (\<not> is_nan x \<and> \<not> is_nan y \<and> (x = y \<or> (x AND 0x7FFFFFFF = 0 \<and> y AND 0x7FFFFFFF = 0)))"

text \<open>
  \<open>operator==\<close> on two \<open>Paint\<close>s, lines 94 to 105: the \<open>SkPaint\<close> bases, then the members
  in the order of the source. \<open>mShader\<close> is not among them.
\<close>

definition paint_eq :: "Paint \<Rightarrow> Paint \<Rightarrow> bool" where
  "paint_eq a b =
     (SkPaint.truncate a = SkPaint.truncate b \<and>
      mFont a = mFont b \<and>
      mLooper a = mLooper b \<and>
      float_eq (mLetterSpacing a) (mLetterSpacing b) \<and>
      float_eq (mWordSpacing a) (mWordSpacing b) \<and>
      mFontFeatureSettings a = mFontFeatureSettings b \<and>
      mMinikinLocaleListId a = mMinikinLocaleListId b \<and>
      mFamilyVariant a = mFamilyVariant b \<and> mHyphenEdit a = mHyphenEdit b \<and>
      mTypeface a = mTypeface b \<and> mAlign a = mAlign b \<and>
      mStrikeThru a = mStrikeThru b \<and> mUnderline a = mUnderline b \<and>
      mDevKern a = mDevKern b)"

text \<open>
  For the examples: a shader object that has neither an \<open>SkShader\<close> nor an image filter,
  and a fresh \<open>Paint\<close> whose letter spacing has been set to a NaN (the quiet NaN
  \<open>0x7FC00000\<close>).
\<close>

definition plainShader :: Shader where
  "plainShader = \<lparr>shaderAddr = 7, asSkShader = None, asSkImageFilter = None\<rparr>"

definition nanPaint :: Paint where
  "nanPaint = Paint_init\<lparr>mLetterSpacing := 0x7FC00000\<rparr>"

section \<open>The operations declared in the header and defined elsewhere\<close>

text \<open>
  The header declares \<open>ImageSlot::createIfNeeded\<close>, \<open>releaseQueueOwnership\<close> and \<open>clear\<close>,
  and the updater's \<open>updateLayer\<close>, \<open>detachSurfaceTexture\<close>, \<open>destroyLayer\<close> and
  \<open>onContextDestroyed\<close>; their bodies are in \<open>DeferredLayerUpdater.cpp\<close>, which is not
  among the sources. This section models them from the specification, sections 3, 4 and 7.
  The resources they acquire and release live in a \<open>world\<close> next to the updater, and
  releasing a resource that is not held is a fault of the model.
\<close>

type_synonym SkRect = "float \<times> float \<times> float \<times> float"

text \<open>
  Modelled from the spec: the Texture Resource Handle (\<open>AutoBackendTextureRelease\<close>, only
  forward-declared in the header). It wraps a GPU-backed image created from a hardware
  buffer and dataspace pair, bound to a GPU context; the slot cache holds one reference
  to it (\<open>cacheRef\<close>), dropped exactly once by \<open>clear\<close>; \<open>queueOwned\<close> is its claim on the
  producer-side buffer-queue ownership. The references that image objects hold to a
  handle, and with them the moment the GPU resource itself is freed, are outside the
  model.
\<close>

record TexHandle =
  texBuffer :: addr
  texDataspace :: int32
  texContext :: addr
  cacheRef :: bool
  queueOwned :: bool

text \<open>
  Modelled from the spec: the backing render target (\<open>Layer\<close>, from \<open>Layer.h\<close>), as far as
  \<open>updateLayer\<close> writes it: the bound image (the handle it derives from), the texture
  transform, the crop rectangle and the filter flag.
\<close>

record Layer =
  boundImage :: "addr option"
  boundTextureTransform :: uint32
  boundCropRect :: SkRect
  boundForceFilter :: bool

text \<open>
  Modelled from the spec: what the producer supplies per available frame (section 6):
  slot id, hardware buffer and dataspace.
\<close>

record Frame =
  frameSlot :: int32
  frameBuffer :: addr
  frameDataspace :: int32

text \<open>
  Modelled from the spec: the resources around the updater. \<open>textures\<close> holds the
  texture resource handles ever created, a handle's address being its index;
  \<open>layers\<close> the render targets not yet released; \<open>sources\<close> the producer sources
  not yet released; \<open>producerFrames\<close> the frames the producer has made available
  since the last latch, the newest last; \<open>resolutions\<close> the cache resolutions made so
  far (buffer and dataspace of each \<open>createIfNeeded\<close> call); \<open>gpuCalls\<close> counts the calls
  issued to the GPU context; \<open>gpuOutcomes\<close> tells how the texture creations to come
  will end, the next one first (section 7: GPU texture creation may fail), every
  creation after the listed ones succeeding; each attempt takes the head off the list
  (\<open>tl\<close>, which leaves an exhausted list as it is).
\<close>

record world =
  textures :: "TexHandle list"
  layers :: "addr \<rightharpoonup> Layer"
  sources :: "addr set"
  producerFrames :: "Frame list"
  resolutions :: "(addr \<times> int32) list"
  gpuCalls :: nat
  gpuOutcomes :: "bool list"

text \<open>A default-constructed \<open>ImageSlot\<close>: the in-class initialisers, lines 121 to 129.\<close>

definition ImageSlot_init :: ImageSlot where
  "ImageSlot_init = \<lparr>mDataspace = 0, mBuffer = None, mTextureRelease = None\<rparr>"

text \<open>
  Modelled from the spec: the slot cache's reference to handle \<open>h\<close> is outstanding; a
  GPU call is counted when there is a context to issue it to (\<open>None\<close>: the context is
  already destroyed, and only the bookkeeping is released); dropping the cache's
  reference to \<open>h\<close>.
\<close>

definition held :: "world \<Rightarrow> addr \<Rightarrow> bool" where
  "held w h = (h < length (textures w) \<and> cacheRef (textures w ! h))"

definition gpu_call :: "addr option \<Rightarrow> world \<Rightarrow> world" where
  "gpu_call context w =
     (case context of None \<Rightarrow> w | Some c \<Rightarrow> w\<lparr>gpuCalls := Suc (gpuCalls w)\<rparr>)"

definition drop_ref :: "addr \<Rightarrow> world \<Rightarrow> world" where
  "drop_ref h w = w\<lparr>textures := (textures w)[h := (textures w ! h)\<lparr>cacheRef := False\<rparr>]\<rparr>"

text \<open>
  Modelled from the spec: \<open>ImageSlot::clear\<close> (declared at line 116). It drops this cache
  entry's reference and leaves the handle null; clearing an already-empty slot is a
  no-op. Dropping a reference the cache does not hold is a double release.
\<close>

definition clear :: "addr option \<Rightarrow> world \<times> ImageSlot \<Rightarrow> fault + world \<times> ImageSlot" where
  "clear context st =
     (case st of (w, slot) \<Rightarrow>
        (case mTextureRelease slot of
           None \<Rightarrow> Inr (w, slot)
         | Some h \<Rightarrow>
             if held w h
             then Inr (gpu_call context (drop_ref h w), slot\<lparr>mTextureRelease := None\<rparr>)
             else Inl DoubleRelease))"

text \<open>
  Modelled from the spec: \<open>ImageSlot::releaseQueueOwnership\<close> (declared at line 114). It
  is forwarded to the active handle, which gives up its claim on the producer-side queue
  ownership without destroying the GPU resource; a no-op if there is no handle.
\<close>

definition releaseQueueOwnership :: "addr \<Rightarrow> world \<times> ImageSlot \<Rightarrow> fault + world \<times> ImageSlot" where
  "releaseQueueOwnership context st =
     (case st of (w, slot) \<Rightarrow>
        (case mTextureRelease slot of
           None \<Rightarrow> Inr (w, slot)
         | Some h \<Rightarrow>
             if h < length (textures w)
             then Inr (gpu_call (Some context)
                         (w\<lparr>textures := (textures w)[h := (textures w ! h)\<lparr>queueOwned := False\<rparr>]\<rparr>),
                       slot)
             else Inl UseAfterFree))"

text \<open>
  Modelled from the spec: the next texture creation succeeds (section 7, resource-creation
  failure), and a cache entry answers a request without creating anything (sections 4.2
  and 4.3: a cached handle exists, buffer and dataspace match, and the caller does not
  force recreation).
\<close>

definition create_succeeds :: "world \<Rightarrow> bool" where
  "create_succeeds w = (case gpuOutcomes w of [] \<Rightarrow> True | ok # rest \<Rightarrow> ok)"

definition cache_hit :: "ImageSlot \<Rightarrow> addr \<Rightarrow> int32 \<Rightarrow> bool \<Rightarrow> bool" where
  "cache_hit slot buffer dataspace forceCreate =
     (mTextureRelease slot \<noteq> None \<and> mBuffer slot = Some buffer
      \<and> mDataspace slot = dataspace \<and> \<not> forceCreate)"

text \<open>
  Modelled from the spec: \<open>ImageSlot::createIfNeeded\<close> (declared at lines 111 and 112),
  sections 4.2, 4.3 and 7. It returns the cached image if there is a cached handle, buffer
  and dataspace match and \<open>forceCreate\<close> is false; otherwise it clears the existing handle
  and asks the GPU context for a new one. When the creation succeeds the entry holds the
  new handle, bound to the given context, and its image is returned; when it fails a null
  image is returned and the entry is left without a handle. An image is named by the
  handle it derives from. Every call is one cache resolution.
\<close>

definition createIfNeeded ::
  "addr \<Rightarrow> int32 \<Rightarrow> bool \<Rightarrow> addr \<Rightarrow> world \<times> ImageSlot \<Rightarrow> fault + addr option \<times> world \<times> ImageSlot" where
  "createIfNeeded buffer dataspace forceCreate context st =
     (case st of (w, slot) \<Rightarrow>
        (let w = w\<lparr>resolutions := resolutions w @ [(buffer, dataspace)]\<rparr> in
         if cache_hit slot buffer dataspace forceCreate
         then Inr (mTextureRelease slot, w, slot)
         else
           (case clear (Some context) (w, slot) of
              Inl e \<Rightarrow> Inl e
            | Inr (w1, slot1) \<Rightarrow>
                (let w2 = gpu_call (Some context) (w1\<lparr>gpuOutcomes := tl (gpuOutcomes w1)\<rparr>)
                 in if create_succeeds w1
                    then
                      (let h = length (textures w2) in
                       Inr (Some h,
                            w2\<lparr>textures := textures w2 @
                               [\<lparr>texBuffer = buffer, texDataspace = dataspace,
                                 texContext = context, cacheRef = True, queueOwned = True\<rparr>]\<rparr>,
                            slot1\<lparr>mDataspace := dataspace, mBuffer := Some buffer,
                              mTextureRelease := Some h\<rparr>))
                    else Inr (None, w2, slot1)))))"

text \<open>
  The entry of the slot map at key \<open>k\<close>; a slot id the cache has never seen reads as a
  default-constructed entry (section 7: treated as no cached entry).
\<close>

definition slot_at :: "(int32 \<times> ImageSlot) list \<Rightarrow> int32 \<Rightarrow> ImageSlot" where
  "slot_at slots k = (case map_of slots k of None \<Rightarrow> ImageSlot_init | Some s \<Rightarrow> s)"

text \<open>
  Modelled from the spec: \<open>DeferredLayerUpdater::updateLayer\<close> (declared at lines 93 and
  94), sections 4.4 and 7. With the pending-update flag set, a producer source and a frame
  available, it resolves the producer's current slot (the newest frame; older ones are
  discarded) and obtains the image from the slot cache. On success it binds image,
  texture transform and crop rectangle onto the backing render target and clears the
  flag. With a null image the frame's visual update is skipped: the render target keeps
  what it shows and the flag stays set. Without a pending update or without a new frame
  it is a no-op. The header's fourth parameter \<open>layerImage\<close> is kept; the specification
  gives it no role, the image bound being the one the slot cache returns.
\<close>

definition updateLayer ::
  "bool \<Rightarrow> uint32 \<Rightarrow> SkRect \<Rightarrow> addr option \<Rightarrow> world \<times> DeferredLayerUpdater \<Rightarrow> fault + world \<times> DeferredLayerUpdater" where
  "updateLayer forceFilter textureTransform cropRect layerImage st =
     (case st of (w, u) \<Rightarrow>
        if \<not> mUpdateTexImage u then Inr (w, u)
        else
          (case (mSurfaceTexture u, mLayer u) of
             (Some src, Some l) \<Rightarrow>
               if producerFrames w = [] then Inr (w, u)
               else
                 (let f = last (producerFrames w);
                      k = frameSlot f;
                      w0 = w\<lparr>producerFrames := []\<rparr>
                  in case createIfNeeded (frameBuffer f) (frameDataspace f) False
                            (mRenderState u) (w0, slot_at (mImageSlots u) k) of
                       Inl e \<Rightarrow> Inl e
                     | Inr (img, w1, slot1) \<Rightarrow>
                         (let u1 = u\<lparr>mImageSlots := AList.update k slot1 (mImageSlots u),
                                     mCurrentSlot := k\<rparr>
                          in case img of
                               None \<Rightarrow> Inr (w1, u1)
                             | Some h \<Rightarrow>
                                 Inr (w1\<lparr>layers := (layers w1)(l \<mapsto>
                                        \<lparr>boundImage = Some h,
                                          boundTextureTransform = textureTransform,
                                          boundCropRect = cropRect,
                                          boundForceFilter = forceFilter\<rparr>)\<rparr>,
                                      u1\<lparr>mUpdateTexImage := False\<rparr>)))
           | _ \<Rightarrow> Inr (w, u)))"

text \<open>
  Modelled from the spec: releasing the producer source, a scoped resource
  (\<open>AutoTextureRelease\<close>, line 42): nothing to release when it is empty.
\<close>

definition release_source :: "addr option \<Rightarrow> world \<Rightarrow> fault + world" where
  "release_source src w =
     (case src of
        None \<Rightarrow> Inr w
      | Some s \<Rightarrow> if s \<in> sources w then Inr (w\<lparr>sources := sources w - {s}\<rparr>)
                  else Inl DoubleRelease)"

text \<open>
  Modelled from the spec: \<open>DeferredLayerUpdater::detachSurfaceTexture\<close> (declared at line
  91), section 4.4. It releases the producer source and, for the currently active slot,
  calls \<open>releaseQueueOwnership\<close>, then \<open>clear\<close>.
\<close>

definition detachSurfaceTexture :: "world \<times> DeferredLayerUpdater \<Rightarrow> fault + world \<times> DeferredLayerUpdater" where
  "detachSurfaceTexture st =
     (case st of (w, u) \<Rightarrow>
        (case release_source (mSurfaceTexture u) w of
           Inl e \<Rightarrow> Inl e
         | Inr w1 \<Rightarrow>
             (let u1 = u\<lparr>mSurfaceTexture := None\<rparr> in
              case map_of (mImageSlots u) (mCurrentSlot u) of
                None \<Rightarrow> Inr (w1, u1)
              | Some slot \<Rightarrow>
                  (case releaseQueueOwnership (mRenderState u) (w1, slot) of
                     Inl e \<Rightarrow> Inl e
                   | Inr (w2, slot2) \<Rightarrow>
                       (case clear (Some (mRenderState u)) (w2, slot2) of
                          Inl e \<Rightarrow> Inl e
                        | Inr (w3, slot3) \<Rightarrow>
                            Inr (w3, u1\<lparr>mImageSlots :=
                                   AList.update (mCurrentSlot u) slot3 (mImageSlots u)\<rparr>))))))"

text \<open>
  Modelled from the spec: clearing every slot-cache entry, in the order of the map, and
  releasing the backing render target, which leaves \<open>mLayer\<close> null.
\<close>

fun clear_all ::
  "addr option \<Rightarrow> world \<Rightarrow> (int32 \<times> ImageSlot) list \<Rightarrow> fault + world \<times> (int32 \<times> ImageSlot) list" where
  "clear_all context w [] = Inr (w, [])"
| "clear_all context w ((k, slot) # rest) =
     (case clear context (w, slot) of
        Inl e \<Rightarrow> Inl e
      | Inr (w1, slot1) \<Rightarrow>
          (case clear_all context w1 rest of
             Inl e \<Rightarrow> Inl e
           | Inr (w2, rest') \<Rightarrow> Inr (w2, (k, slot1) # rest')))"

definition release_layer :: "world \<times> DeferredLayerUpdater \<Rightarrow> fault + world \<times> DeferredLayerUpdater" where
  "release_layer st =
     (case st of (w, u) \<Rightarrow>
        (case mLayer u of
           None \<Rightarrow> Inr (w, u)
         | Some l \<Rightarrow>
             if l \<in> dom (layers w)
             then Inr (w\<lparr>layers := (layers w)(l := None)\<rparr>, u\<lparr>mLayer := None\<rparr>)
             else Inl DoubleRelease))"

text \<open>
  Modelled from the spec: \<open>DeferredLayerUpdater::destroyLayer\<close> (declared at line 96) and
  \<open>onContextDestroyed\<close> (declared at line 99), section 4.4. Both clear every slot-cache
  entry and release the backing render target; \<open>destroyLayer\<close> is the normal path, with
  the GPU context alive, \<open>onContextDestroyed\<close> the path after the context is gone, which
  issues no GPU call.
\<close>

definition teardown :: "addr option \<Rightarrow> world \<times> DeferredLayerUpdater \<Rightarrow> fault + world \<times> DeferredLayerUpdater" where
  "teardown context st =
     (case st of (w, u) \<Rightarrow>
        (case clear_all context w (mImageSlots u) of
           Inl e \<Rightarrow> Inl e
         | Inr (w1, slots1) \<Rightarrow> release_layer (w1, u\<lparr>mImageSlots := slots1\<rparr>)))"

definition destroyLayer :: "world \<times> DeferredLayerUpdater \<Rightarrow> fault + world \<times> DeferredLayerUpdater" where
  "destroyLayer st = teardown (Some (mRenderState (snd st))) st"

definition onContextDestroyed :: "world \<times> DeferredLayerUpdater \<Rightarrow> fault + world \<times> DeferredLayerUpdater" where
  "onContextDestroyed st = teardown None st"

text \<open>
  The handles the slot cache refers to, and the consistency of an updater with the
  world: the slot map has one entry per key, no two entries share a handle, the cache's
  reference to each cached handle is outstanding, and the render target and the producer
  source the updater points to are not yet released.
\<close>

definition cached_handles :: "(int32 \<times> ImageSlot) list \<Rightarrow> addr list" where
  "cached_handles slots = List.map_filter (\<lambda>(k, slot). mTextureRelease slot) slots"

definition consistent :: "world \<Rightarrow> DeferredLayerUpdater \<Rightarrow> bool" where
  "consistent w u =
     (distinct (map fst (mImageSlots u))
      \<and> distinct (cached_handles (mImageSlots u))
      \<and> list_all (held w) (cached_handles (mImageSlots u))
      \<and> (case mLayer u of None \<Rightarrow> True | Some l \<Rightarrow> l \<in> dom (layers w))
      \<and> (case mSurfaceTexture u of None \<Rightarrow> True | Some src \<Rightarrow> src \<in> sources w))"

definition slot_ok :: "world \<Rightarrow> ImageSlot \<Rightarrow> bool" where
  "slot_ok w slot = (case mTextureRelease slot of None \<Rightarrow> True | Some h \<Rightarrow> held w h)"

text \<open>What \<open>clear\<close> on every entry comes to: all cached references dropped, all handles null.\<close>

fun drop_refs :: "addr option \<Rightarrow> addr list \<Rightarrow> world \<Rightarrow> world" where
  "drop_refs c [] w = w"
| "drop_refs c (h # hs) w = drop_refs c hs (gpu_call c (drop_ref h w))"

definition cleared :: "(int32 \<times> ImageSlot) list \<Rightarrow> (int32 \<times> ImageSlot) list" where
  "cleared slots = map (\<lambda>(k, slot). (k, slot\<lparr>mTextureRelease := None\<rparr>)) slots"

text \<open>
  For the examples: a world with one render target (address 5) and one producer source
  (address 8), an updater attached to both, the two as they are after the frame \<open>B1\<close>
  has been latched, and two frames for slot 0.
\<close>

definition world0 :: world where
  "world0 = \<lparr>textures = [], layers = [5 \<mapsto> \<lparr>boundImage = None, boundTextureTransform = 0,
       boundCropRect = (0, 0, 0, 0), boundForceFilter = False\<rparr>],
     sources = {8}, producerFrames = [], resolutions = [], gpuCalls = 0,
     gpuOutcomes = []\<rparr>"

definition attached0 :: DeferredLayerUpdater where
  "attached0 = updater0\<lparr>mSurfaceTexture := Some 8, mLayer := Some 5, mRenderState := 3\<rparr>"

definition world1 :: world where
  "world1 = world0\<lparr>textures := [\<lparr>texBuffer = 11, texDataspace = 1, texContext = 3,
       cacheRef = True, queueOwned = True\<rparr>],
     layers := [5 \<mapsto> \<lparr>boundImage = Some 0, boundTextureTransform = 0,
       boundCropRect = (0, 0, 0, 0), boundForceFilter = False\<rparr>],
     resolutions := [(11, 1)], gpuCalls := 1\<rparr>"

definition attached1 :: DeferredLayerUpdater where
  "attached1 = attached0\<lparr>mImageSlots :=
       [(0, \<lparr>mDataspace = 1, mBuffer = Some 11, mTextureRelease = Some 0\<rparr>)],
     mCurrentSlot := 0\<rparr>"

definition B1 :: Frame where "B1 = \<lparr>frameSlot = 0, frameBuffer = 11, frameDataspace = 1\<rparr>"
definition B2 :: Frame where "B2 = \<lparr>frameSlot = 0, frameBuffer = 12, frameDataspace = 1\<rparr>"

section \<open>Setters: returned flag and frame\<close>

lemma run_call_result: "fst (run_call c u) = arg_differs c u"
  by (cases c) (auto simp: setSize_def setBlend_def)

lemma run_call_stored: "\<not> arg_differs c (snd (run_call c u))"
  by (cases c) (auto simp: setSize_def setBlend_def)

lemma run_calls_length: "length (fst (run_calls cs u)) = length cs"
proof (induction cs arbitrary: u)
  case Nil
  show ?case by simp
next
  case (Cons c cs)
  obtain r u' where step: "run_call c u = (r, u')" by (cases "run_call c u")
  obtain rs u'' where rest: "run_calls cs u' = (rs, u'')" by (cases "run_calls cs u'")
  from Cons.IH [of u'] rest have "length rs = length cs" by simp
  with step rest show ?case by simp
qed

lemma run_calls_nth:
  "i < length cs \<Longrightarrow>
     fst (run_calls cs u) ! i = arg_differs (cs ! i) (snd (run_calls (take i cs) u))"
proof (induction cs arbitrary: u i)
  case Nil
  then show ?case by simp
next
  case (Cons c cs)
  obtain r u' where step: "run_call c u = (r, u')" by (cases "run_call c u")
  obtain rs u'' where rest: "run_calls cs u' = (rs, u'')" by (cases "run_calls cs u'")
  show ?case
  proof (cases i)
    case 0
    with step rest run_call_result [of c u] show ?thesis by simp
  next
    case (Suc j)
    with Cons.prems have j: "j < length cs" by simp
    obtain ps v where pre: "run_calls (take j cs) u' = (ps, v)"
      by (cases "run_calls (take j cs) u'")
    from Cons.IH [OF j, of u'] rest pre have "rs ! j = arg_differs (cs ! j) v" by simp
    with Suc step rest pre show ?thesis by simp
  qed
qed

text \<open>
  C5. In every sequence of \<open>setSize\<close> and \<open>setBlend\<close> calls, the flag a call returns is
  true exactly when its argument differs from the value stored at that moment (the state
  the preceding calls leave); a setter called twice with the same new value returns true,
  then false.
\<close>

theorem setters_return_changed:
  "(\<forall>i < length cs.
      fst (run_calls cs u) ! i = arg_differs (cs ! i) (snd (run_calls (take i cs) u)))
   \<and> length (fst (run_calls cs u)) = length cs
   \<and> (arg_differs c u \<longrightarrow> fst (run_calls [c, c] u) = [True, False])"
proof (intro conjI allI impI)
  fix i assume "i < length cs"
  then show "fst (run_calls cs u) ! i = arg_differs (cs ! i) (snd (run_calls (take i cs) u))"
    by (rule run_calls_nth)
next
  show "length (fst (run_calls cs u)) = length cs" by (rule run_calls_length)
next
  assume d: "arg_differs c u"
  obtain r u' where step: "run_call c u = (r, u')" by (cases "run_call c u")
  obtain r' v where step': "run_call c u' = (r', v)" by (cases "run_call c u'")
  from step d run_call_result [of c u] have "r = True" by simp
  moreover from step step' run_call_result [of c u'] run_call_stored [of c u]
  have "r' = False" by simp
  ultimately show "fst (run_calls [c, c] u) = [True, False]"
    using step step' by simp
qed

theorem setters_return_changed_witness:
  "fst (run_calls [SetSize 4 3, SetSize 4 3, SetBlend True, SetSize 4 5, SetBlend True] updater0)
     = [True, False, True, True, False]
   \<and> fst (run_calls [SetSize 4 3, SetSize 4 3, SetBlend True, SetSize 4 5, SetBlend True] updater0) ! 3
     = arg_differs (SetSize 4 5) (snd (run_calls [SetSize 4 3, SetSize 4 3, SetBlend True] updater0))
   \<and> fst (run_calls [SetBlend True, SetBlend True] updater0) = [True, False]"
proof -
  let ?cs = "[SetSize 4 3, SetSize 4 3, SetBlend True, SetSize 4 5, SetBlend True]"
  have d: "arg_differs (SetBlend True) updater0" by (simp add: updater0_def)
  note inst = setters_return_changed [of ?cs updater0 "SetBlend True"]
  from inst d have twice: "fst (run_calls [SetBlend True, SetBlend True] updater0) = [True, False]"
    by blast
  from inst have "\<forall>i < length ?cs.
      fst (run_calls ?cs updater0) ! i = arg_differs (?cs ! i) (snd (run_calls (take i ?cs) updater0))"
    by blast
  then have "fst (run_calls ?cs updater0) ! 3
      = arg_differs (?cs ! 3) (snd (run_calls (take 3 ?cs) updater0))"
    by simp
  moreover have "take 3 ?cs = [SetSize 4 3, SetSize 4 3, SetBlend True]" "?cs ! 3 = SetSize 4 5"
    by (simp_all add: numeral_3_eq_3)
  ultimately have third: "fst (run_calls ?cs updater0) ! 3
      = arg_differs (SetSize 4 5) (snd (run_calls [SetSize 4 3, SetSize 4 3, SetBlend True] updater0))"
    by simp
  have "fst (run_calls ?cs updater0) = [True, False, True, True, False]"
    by (simp add: updater0_def setSize_def setBlend_def)
  with twice third show ?thesis by blast
qed

lemma updateTexImage_funpow: "(updateTexImage ^^ Suc n) u = updateTexImage u"
proof (induction n)
  case 0
  show ?case by simp
next
  case (Suc k)
  have "(updateTexImage ^^ Suc (Suc k)) u = updateTexImage ((updateTexImage ^^ Suc k) u)"
    by simp
  also have "\<dots> = updateTexImage (updateTexImage u)" by (simp only: Suc.IH)
  also have "\<dots> = updateTexImage u" by (simp add: updateTexImage_def)
  finally show ?case .
qed

text \<open>
  C7. Calling \<open>updateTexImage\<close> any number of times (at least once) leaves the updater in
  the state one call leaves: the pending flag is true and every other field is what it was.
\<close>

theorem updateTexImage_idempotent:
  "(updateTexImage ^^ Suc n) u = updateTexImage u
   \<and> mUpdateTexImage (updateTexImage u) = True
   \<and> (updateTexImage u)\<lparr>mUpdateTexImage := mUpdateTexImage u\<rparr> = u"
  using updateTexImage_funpow [of n u] by (simp add: updateTexImage_def)

text \<open>
  C8. \<open>setSize\<close> changes no field but \<open>mWidth\<close> and \<open>mHeight\<close>, and \<open>setBlend\<close> no field
  but \<open>mBlend\<close>: putting the old values of these fields back gives the prior state, and
  each of the other fields reads as before.
\<close>

theorem setters_frame:
  "(snd (setSize w h u))\<lparr>mWidth := mWidth u, mHeight := mHeight u\<rparr> = u
   \<and> (snd (setBlend b u))\<lparr>mBlend := mBlend u\<rparr> = u
   \<and> mBlend (snd (setSize w h u)) = mBlend u
   \<and> mWidth (snd (setBlend b u)) = mWidth u
   \<and> mHeight (snd (setBlend b u)) = mHeight u
   \<and> (let s = snd (setSize w h u); t = snd (setBlend b u) in
        mTransform s = mTransform u \<and> mTransform t = mTransform u
      \<and> mColorFilter s = mColorFilter u \<and> mColorFilter t = mColorFilter u
      \<and> mAlpha s = mAlpha u \<and> mAlpha t = mAlpha u
      \<and> mMode s = mMode u \<and> mMode t = mMode u
      \<and> mSurfaceTexture s = mSurfaceTexture u \<and> mSurfaceTexture t = mSurfaceTexture u
      \<and> mImageSlots s = mImageSlots u \<and> mImageSlots t = mImageSlots u
      \<and> mUpdateTexImage s = mUpdateTexImage u \<and> mUpdateTexImage t = mUpdateTexImage u
      \<and> mGLContextAttached s = mGLContextAttached u \<and> mGLContextAttached t = mGLContextAttached u
      \<and> mCurrentSlot s = mCurrentSlot u \<and> mCurrentSlot t = mCurrentSlot u
      \<and> mRenderState s = mRenderState u \<and> mRenderState t = mRenderState u
      \<and> mLayer s = mLayer u \<and> mLayer t = mLayer u)"
  by (simp add: setSize_def setBlend_def Let_def)

theorem setters_frame_witness:
  "mWidth (snd (setSize 4 3 updater0)) = 4
   \<and> (snd (setSize 4 3 updater0))\<lparr>mWidth := 0, mHeight := 0\<rparr> = updater0
   \<and> mBlend (snd (setBlend True updater0)) = True
   \<and> (snd (setBlend True updater0))\<lparr>mBlend := False\<rparr> = updater0"
proof -
  have "mWidth updater0 = 0" "mHeight updater0 = 0" "mBlend updater0 = False"
    by (simp_all add: updater0_def)
  moreover have "mWidth (snd (setSize 4 3 updater0)) = 4"
    "mBlend (snd (setBlend True updater0)) = True"
    by (simp_all add: setSize_def setBlend_def updater0_def)
  ultimately show ?thesis
    using setters_frame [where w = 4 and h = 3 and u = updater0 and b = True] by simp
qed

section \<open>The legacy flags of \<open>Paint\<close>\<close>

lemmas flag_defs = sAntiAliasFlag_def sFilterBitmapFlag_def sDitherFlag_def sFakeBoldFlag_def
  sLinearMetrics_def sSubpixelMetrics_def sEmbeddedBitmaps_def sForceAutoHinting_def
  sUnderlineFlag_def sStrikeThruFlag_def sDevKernFlag_def

lemma single_bit: "(if (flags :: uint32) AND 2 ^ k \<noteq> 0 then 2 ^ k else 0) = flags AND 2 ^ k"
  apply (rule bit_eqI)
  apply (auto simp add: and_exp_eq_0_iff_not_bit bit_and_iff bit_exp_iff)
  done

lemma neg_int_and: "neg_int b AND c = (if b then c else 0)"
  by (simp add: neg_int_def)

lemma flag_bit:
  "neg_int (flags AND 2 ^ k \<noteq> 0) AND 2 ^ k = flags AND 2 ^ k"
  using single_bit [of flags k] by (simp add: neg_int_and)

lemma flag_bits:
  "neg_int (flags AND sAntiAliasFlag \<noteq> 0) AND sAntiAliasFlag = flags AND sAntiAliasFlag"
  "neg_int (flags AND sDitherFlag \<noteq> 0) AND sDitherFlag = flags AND sDitherFlag"
  "neg_int (flags AND sFakeBoldFlag \<noteq> 0) AND sFakeBoldFlag = flags AND sFakeBoldFlag"
  "neg_int (flags AND sLinearMetrics \<noteq> 0) AND sLinearMetrics = flags AND sLinearMetrics"
  "neg_int (flags AND sSubpixelMetrics \<noteq> 0) AND sSubpixelMetrics = flags AND sSubpixelMetrics"
  "neg_int (flags AND sEmbeddedBitmaps \<noteq> 0) AND sEmbeddedBitmaps = flags AND sEmbeddedBitmaps"
  "neg_int (flags AND sForceAutoHinting \<noteq> 0) AND sForceAutoHinting = flags AND sForceAutoHinting"
  "neg_int (flags AND sUnderlineFlag \<noteq> 0) AND sUnderlineFlag = flags AND sUnderlineFlag"
  "neg_int (flags AND sStrikeThruFlag \<noteq> 0) AND sStrikeThruFlag = flags AND sStrikeThruFlag"
  "neg_int (flags AND sDevKernFlag \<noteq> 0) AND sDevKernFlag = flags AND sDevKernFlag"
  using flag_bit [of flags 0] flag_bit [of flags 2] flag_bit [of flags 5] flag_bit [of flags 6]
    flag_bit [of flags 7] flag_bit [of flags 10] flag_bit [of flags 11] flag_bit [of flags 3]
    flag_bit [of flags 4] flag_bit [of flags 8]
  by (simp_all add: flag_defs)

lemma filter_bit:
  "flags AND sFilterBitmapFlag \<noteq> 0 \<Longrightarrow> flags AND sFilterBitmapFlag = sFilterBitmapFlag"
  using single_bit [of flags 1] by (simp add: flag_defs split: if_splits)

lemma paint_part:
  "paintToLegacyFlags (applyLegacyFlagsToPaint flags p)
     = flags AND sAntiAliasFlag OR flags AND sDitherFlag OR flags AND sFilterBitmapFlag"
proof (cases "flags AND sFilterBitmapFlag = 0")
  case True
  then show ?thesis
    by (simp add: paintToLegacyFlags_def applyLegacyFlagsToPaint_def Let_def flag_bits)
next
  case False
  with filter_bit [of flags] show ?thesis
    by (simp add: paintToLegacyFlags_def applyLegacyFlagsToPaint_def Let_def flag_bits or.assoc)
qed

lemma font_part:
  "fontToLegacyFlags (applyLegacyFlagsToFont flags f)
     = flags AND sFakeBoldFlag OR flags AND sLinearMetrics OR flags AND sSubpixelMetrics
       OR flags AND sEmbeddedBitmaps OR flags AND sForceAutoHinting"
  by (simp add: fontToLegacyFlags_def applyLegacyFlagsToFont_def Let_def flag_bits or.assoc)

lemma mask: "(flags AND sAntiAliasFlag OR flags AND sDitherFlag OR flags AND sFilterBitmapFlag)
   OR (flags AND sFakeBoldFlag OR flags AND sLinearMetrics OR flags AND sSubpixelMetrics
       OR flags AND sEmbeddedBitmaps OR flags AND sForceAutoHinting)
   OR flags AND sStrikeThruFlag OR flags AND sUnderlineFlag OR flags AND sDevKernFlag
   = flags AND 0xDFF"
  by (simp add: flag_defs flip: bit.conj_disj_distrib)

lemma paint_of_set:
  "paintToLegacyFlags (setJavaFlags flags p) = paintToLegacyFlags (applyLegacyFlagsToPaint flags p)"
  by (simp add: setJavaFlags_def paintToLegacyFlags_def applyLegacyFlagsToPaint_def Let_def)

lemma font_of_set:
  "mFont (setJavaFlags flags p) = applyLegacyFlagsToFont flags (mFont p)"
  by (simp add: setJavaFlags_def applyLegacyFlagsToPaint_def Let_def)

lemma bools_of_set:
  "mStrikeThru (setJavaFlags flags p) = (flags AND sStrikeThruFlag \<noteq> 0)"
  "mUnderline (setJavaFlags flags p) = (flags AND sUnderlineFlag \<noteq> 0)"
  "mDevKern (setJavaFlags flags p) = (flags AND sDevKernFlag \<noteq> 0)"
  by (simp_all add: setJavaFlags_def Let_def)

lemma getJavaFlags_setJavaFlags: "getJavaFlags (setJavaFlags flags p) = flags AND 0xDFF"
proof -
  have "getJavaFlags (setJavaFlags flags p) =
     paintToLegacyFlags (applyLegacyFlagsToPaint flags p)
     OR fontToLegacyFlags (applyLegacyFlagsToFont flags (mFont p))
     OR flags AND sStrikeThruFlag OR flags AND sUnderlineFlag OR flags AND sDevKernFlag"
    by (simp add: getJavaFlags_def Let_def paint_of_set font_of_set bools_of_set flag_bits or.assoc)
  then show ?thesis by (simp only: paint_part font_part mask)
qed

lemma and_mask_iff: "((x :: uint32) AND m = x) = (x AND NOT m = 0)"
proof
  assume "x AND m = x"
  then have "x AND NOT m = (x AND m) AND NOT m" by simp
  also have "\<dots> = 0" by (simp add: and.assoc)
  finally show "x AND NOT m = 0" .
next
  assume z: "x AND NOT m = 0"
  have "x = x AND (m OR NOT m)" by simp
  also have "\<dots> = (x AND m) OR (x AND NOT m)" by (simp only: bit.conj_disj_distrib)
  also have "\<dots> = x AND m" by (simp add: z)
  finally show "x AND m = x" by simp
qed

text \<open>
  C9, as the code has it. \<open>setJavaFlags\<close> stores the eleven flags the file names and
  nothing else, so \<open>getJavaFlags\<close> afterwards returns the flags word restricted to these
  eleven bits (\<open>0xDFF\<close>), whatever the paint was before; the flags word comes back
  unchanged exactly when it has no bit outside \<open>0xDFF\<close>.
\<close>

theorem javaFlags_set_get:
  "getJavaFlags (setJavaFlags flags p) = flags AND 0xDFF
   \<and> (getJavaFlags (setJavaFlags flags p) = flags) = (flags AND NOT 0xDFF = 0)"
  using and_mask_iff [of flags "0xDFF"] by (simp only: getJavaFlags_setJavaFlags)

text \<open>
  The claim as written fails at the flags word \<open>0x200\<close>, a bit that no constant of the
  file names: after \<open>setJavaFlags(0x200)\<close> on a fresh \<open>Paint\<close>, \<open>getJavaFlags()\<close> is 0.
\<close>

theorem javaFlags_roundtrip_counterexample:
  "getJavaFlags (setJavaFlags 0x200 Paint_init) \<noteq> 0x200"
  by (simp add: getJavaFlags_def setJavaFlags_def paintToLegacyFlags_def fontToLegacyFlags_def
      applyLegacyFlagsToPaint_def applyLegacyFlagsToFont_def Let_def flag_defs neg_int_def
      Paint_init_def SkFont_init_def)

section \<open>Equality of \<open>Paint\<close>s\<close>

lemma float_eq_self: "float_eq x x = (\<not> is_nan x)"
  by (simp add: float_eq_def)

lemma same_but_shader:
  assumes "b\<lparr>mShader := mShader a\<rparr> = a"
  shows "b = a\<lparr>mShader := mShader b\<rparr>"
proof -
  have "a\<lparr>mShader := mShader b\<rparr> = (b\<lparr>mShader := mShader a\<rparr>)\<lparr>mShader := mShader b\<rparr>"
    by (simp only: assms)
  also have "\<dots> = b" by simp
  finally show ?thesis by simp
qed

lemma paint_eq_copy:
  "paint_eq a (a\<lparr>mShader := t\<rparr>) = (\<not> is_nan (mLetterSpacing a) \<and> \<not> is_nan (mWordSpacing a))"
  by (simp add: paint_eq_def SkPaint.truncate_def float_eq_self)

text \<open>
  C10, as the code has it. \<open>operator==\<close> does not look at \<open>mShader\<close>: replacing the shader
  member of either operand never changes the result. Two \<open>Paint\<close>s with the same compared
  state (they differ at most in \<open>mShader\<close>) are equal exactly when neither the letter
  spacing nor the word spacing is a NaN: the two spacings are compared with the float
  \<open>==\<close>, under which a NaN differs from itself.
\<close>

theorem paint_eq_ignores_shader:
  "paint_eq (a\<lparr>mShader := s\<rparr>) (b\<lparr>mShader := t\<rparr>) = paint_eq a b
   \<and> (b\<lparr>mShader := mShader a\<rparr> = a
      \<longrightarrow> paint_eq a b = (\<not> is_nan (mLetterSpacing a) \<and> \<not> is_nan (mWordSpacing a)))"
proof (intro conjI impI)
  show "paint_eq (a\<lparr>mShader := s\<rparr>) (b\<lparr>mShader := t\<rparr>) = paint_eq a b"
    by (simp add: paint_eq_def SkPaint.truncate_def)
next
  assume "b\<lparr>mShader := mShader a\<rparr> = a"
  then have "b = a\<lparr>mShader := mShader b\<rparr>" by (rule same_but_shader)
  then have "paint_eq a b = paint_eq a (a\<lparr>mShader := mShader b\<rparr>)" by simp
  then show "paint_eq a b = (\<not> is_nan (mLetterSpacing a) \<and> \<not> is_nan (mWordSpacing a))"
    by (simp only: paint_eq_copy)
qed

text \<open>
  The claim as written fails for a \<open>Paint\<close> whose letter spacing is a NaN and the same
  \<open>Paint\<close> after \<open>setShader\<close> with a shader object that has neither an \<open>SkShader\<close> nor an
  image filter: the two agree on every compared member and differ in \<open>mShader\<close>, and
  \<open>operator==\<close> returns false.
\<close>

theorem paint_eq_ignores_shader_counterexample:
  "SkPaint.truncate nanPaint = SkPaint.truncate (setShader (Some plainShader) nanPaint)
   \<and> mFont nanPaint = mFont (setShader (Some plainShader) nanPaint)
   \<and> mLooper nanPaint = mLooper (setShader (Some plainShader) nanPaint)
   \<and> mLetterSpacing nanPaint = mLetterSpacing (setShader (Some plainShader) nanPaint)
   \<and> mWordSpacing nanPaint = mWordSpacing (setShader (Some plainShader) nanPaint)
   \<and> mFontFeatureSettings nanPaint = mFontFeatureSettings (setShader (Some plainShader) nanPaint)
   \<and> mMinikinLocaleListId nanPaint = mMinikinLocaleListId (setShader (Some plainShader) nanPaint)
   \<and> mFamilyVariant nanPaint = mFamilyVariant (setShader (Some plainShader) nanPaint)
   \<and> mHyphenEdit nanPaint = mHyphenEdit (setShader (Some plainShader) nanPaint)
   \<and> mTypeface nanPaint = mTypeface (setShader (Some plainShader) nanPaint)
   \<and> mAlign nanPaint = mAlign (setShader (Some plainShader) nanPaint)
   \<and> mStrikeThru nanPaint = mStrikeThru (setShader (Some plainShader) nanPaint)
   \<and> mUnderline nanPaint = mUnderline (setShader (Some plainShader) nanPaint)
   \<and> mDevKern nanPaint = mDevKern (setShader (Some plainShader) nanPaint)
   \<and> mShader nanPaint \<noteq> mShader (setShader (Some plainShader) nanPaint)
   \<and> \<not> paint_eq nanPaint (setShader (Some plainShader) nanPaint)"
proof -
  have sh: "setShader (Some plainShader) nanPaint = nanPaint\<lparr>mShader := Some plainShader\<rparr>"
    by (simp add: setShader_def plainShader_def nanPaint_def Paint_init_def)
  have nan: "is_nan (mLetterSpacing nanPaint)"
    by (simp add: is_nan_def nanPaint_def)
  have "\<not> paint_eq nanPaint (nanPaint\<lparr>mShader := Some plainShader\<rparr>)"
    using nan by (simp add: paint_eq_def float_eq_def)
  moreover have "mShader nanPaint \<noteq> Some plainShader"
    by (simp add: nanPaint_def Paint_init_def)
  ultimately show ?thesis
    unfolding sh by (simp add: SkPaint.truncate_def)
qed

text \<open>
  A fresh \<open>Paint\<close> and the same \<open>Paint\<close> after \<open>setShader\<close> with that shader object differ
  in \<open>mShader\<close> only, have no NaN spacing, and compare equal.
\<close>

theorem paint_eq_ignores_shader_witness:
  "(setShader (Some plainShader) Paint_init)\<lparr>mShader := mShader Paint_init\<rparr> = Paint_init
   \<and> mShader (setShader (Some plainShader) Paint_init) \<noteq> mShader Paint_init
   \<and> paint_eq Paint_init (setShader (Some plainShader) Paint_init)
   \<and> paint_eq (Paint_init\<lparr>mShader := Some plainShader\<rparr>) (setShader None Paint_init)"
proof -
  let ?q = "setShader (Some plainShader) Paint_init"
  have same: "?q\<lparr>mShader := mShader Paint_init\<rparr> = Paint_init"
    by (simp add: setShader_def plainShader_def Paint_init_def)
  have no_nan: "\<not> is_nan (mLetterSpacing Paint_init)" "\<not> is_nan (mWordSpacing Paint_init)"
    by (simp_all add: is_nan_def Paint_init_def)
  have differ: "mShader ?q \<noteq> mShader Paint_init"
    by (simp add: setShader_def Paint_init_def)
  have eq1: "paint_eq Paint_init ?q"
    using paint_eq_ignores_shader [where a = Paint_init and b = ?q] same no_nan by blast
  have none: "setShader None Paint_init = Paint_init"
    by (simp add: setShader_def Paint_init_def)
  have self: "paint_eq Paint_init Paint_init"
    using paint_eq_ignores_shader [where a = Paint_init and b = Paint_init] no_nan by simp
  have "paint_eq (Paint_init\<lparr>mShader := Some plainShader\<rparr>) (Paint_init\<lparr>mShader := None\<rparr>)
      = paint_eq Paint_init Paint_init"
    using paint_eq_ignores_shader [where a = Paint_init and b = Paint_init
        and s = "Some plainShader" and t = None]
    by blast
  moreover have "Paint_init\<lparr>mShader := None\<rparr> = Paint_init" by (simp add: Paint_init_def)
  ultimately have eq2: "paint_eq (Paint_init\<lparr>mShader := Some plainShader\<rparr>) (setShader None Paint_init)"
    using self none by simp
  from same differ eq1 eq2 show ?thesis by blast
qed

text \<open>
  The same for any \<open>Paint\<close>: with a NaN letter spacing it is not equal to itself.
\<close>

lemma paint_eq_nan: "is_nan (mLetterSpacing a) \<Longrightarrow> \<not> paint_eq a a"
  by (simp add: paint_eq_def float_eq_def)

section \<open>\<open>setTransform\<close>: replacing the stored matrix\<close>

lemma live_delete: "live (h[q := None]) a = (live h a \<and> a \<noteq> q)"
  by (cases "a = q") (auto simp: live_def)

lemma live_append: "live (h @ [c]) a = (live h a \<or> (a = length h \<and> c \<noteq> None))"
  by (auto simp: live_def nth_append less_Suc_eq)

lemma live_bound: "live h a \<Longrightarrow> a < length h"
  by (simp add: live_def)

lemma setTransform_null:
  assumes "owns_transform h u"
  shows "setTransform None (h, u) =
     Inr (case mTransform u of None \<Rightarrow> h | Some q \<Rightarrow> h[q := None], u\<lparr>mTransform := None\<rparr>)"
  using assms
  by (auto simp: setTransform_def owns_transform_def delete_matrix_def split: option.splits)

lemma setTransform_copy:
  assumes "owns_transform h u" and "live h p" and "mTransform u \<noteq> Some p"
  shows "setTransform (Some p) (h, u) =
     Inr ((case mTransform u of None \<Rightarrow> h | Some q \<Rightarrow> h[q := None]) @ [h ! p],
          u\<lparr>mTransform := Some (length h)\<rparr>)"
  using assms
  by (auto simp: setTransform_def owns_transform_def delete_matrix_def read_matrix_def
      new_matrix_def live_def split: option.splits)

text \<open>
  What \<open>setTransform(m)\<close> does for an argument that is not the updater's own matrix. For
  an updater that owns its transform and an argument \<open>m\<close> that is null or a live matrix of
  the caller's, the call succeeds and changes no field but \<open>mTransform\<close>; the stored
  transform is null when \<open>m\<close> is null, and otherwise a newly allocated matrix holding the
  value of \<open>*m\<close>, while \<open>*m\<close> stays live; the matrix stored before is deleted and every
  other matrix is untouched. A following \<open>setTransform(nullptr)\<close> leaves the updater with
  no transform and deletes the copy: the live matrices are then those live at the start,
  less the one the updater owned.
\<close>

lemma setTransform_replaces:
  assumes own: "owns_transform h u" and arg: "callers_matrix h u m"
  shows "\<exists>h' u'. setTransform m (h, u) = Inr (h', u')
     \<and> owns_transform h' u'
     \<and> u' = u\<lparr>mTransform := mTransform u'\<rparr>
     \<and> (case m of
          None \<Rightarrow> mTransform u' = None \<and> length h' = length h
        | Some p \<Rightarrow> mTransform u' = Some (length h) \<and> length h' = Suc (length h)
            \<and> h' ! length h = h ! p \<and> live h' p)
     \<and> (\<forall>a < length h. if mTransform u = Some a then \<not> live h' a else h' ! a = h ! a)
     \<and> (\<exists>h'' u''. setTransform None (h', u') = Inr (h'', u'')
          \<and> mTransform u'' = None
          \<and> (\<forall>a. live h'' a = (live h a \<and> mTransform u \<noteq> Some a)))"
proof -
  define h1 where "h1 = (case mTransform u of None \<Rightarrow> h | Some q \<Rightarrow> h[q := None])"
  have len1: "length h1 = length h" by (simp add: h1_def split: option.splits)
  have live1: "live h1 a = (live h a \<and> mTransform u \<noteq> Some a)" for a
    by (auto simp: h1_def live_delete split: option.splits)
  have same1: "a < length h \<Longrightarrow> mTransform u \<noteq> Some a \<Longrightarrow> h1 ! a = h ! a" for a
    by (auto simp: h1_def split: option.splits)
  show ?thesis
  proof (cases m)
    case None
    define u' where "u' = u\<lparr>mTransform := None\<rparr>"
    have st: "setTransform m (h, u) = Inr (h1, u')"
      using None setTransform_null [OF own] by (simp add: h1_def u'_def)
    have own': "owns_transform h1 u'" by (simp add: owns_transform_def u'_def)
    have st2: "setTransform None (h1, u') = Inr (h1, u')"
      using setTransform_null [OF own'] by (simp add: u'_def)
    have "u' = u\<lparr>mTransform := mTransform u'\<rparr>" "mTransform u' = None"
      by (simp_all add: u'_def)
    moreover have "\<forall>a < length h. if mTransform u = Some a then \<not> live h1 a else h1 ! a = h ! a"
      by (simp add: live1 same1)
    moreover have "\<exists>h'' u''. setTransform None (h1, u') = Inr (h'', u'')
          \<and> mTransform u'' = None
          \<and> (\<forall>a. live h'' a = (live h a \<and> mTransform u \<noteq> Some a))"
      using st2 live1 \<open>mTransform u' = None\<close> by blast
    ultimately show ?thesis
      using st own' len1 None by simp
  next
    case (Some p)
    with arg have lp: "live h p" and ne: "mTransform u \<noteq> Some p"
      by (simp_all add: callers_matrix_def)
    define h' where "h' = h1 @ [h ! p]"
    define u' where "u' = u\<lparr>mTransform := Some (length h)\<rparr>"
    have hp: "h ! p \<noteq> None" using lp by (simp add: live_def)
    have st: "setTransform m (h, u) = Inr (h', u')"
      using Some setTransform_copy [OF own lp ne] by (simp add: h1_def h'_def u'_def)
    have live': "live h' a = (live h1 a \<or> a = length h)" for a
      using hp len1 by (simp add: h'_def live_append)
    have own': "owns_transform h' u'"
      by (simp add: owns_transform_def u'_def live')
    have st2: "setTransform None (h', u') = Inr (h'[length h := None], u'\<lparr>mTransform := None\<rparr>)"
      using setTransform_null [OF own'] by (simp add: u'_def)
    have lv: "live (h'[length h := None]) a = (live h a \<and> mTransform u \<noteq> Some a)" for a
      using live_bound [of h a] by (auto simp: live_delete live' live1)
    have nth': "a < length h \<Longrightarrow> h' ! a = h1 ! a" for a
      using len1 by (simp add: h'_def nth_append)
    have "u' = u\<lparr>mTransform := mTransform u'\<rparr>" "mTransform u' = Some (length h)"
      by (simp_all add: u'_def)
    moreover have "length h' = Suc (length h)" "h' ! length h = h ! p"
      using len1 by (simp_all add: h'_def nth_append)
    moreover have "live h' p" using lp ne by (simp add: live' live1)
    moreover have "\<forall>a < length h. if mTransform u = Some a then \<not> live h' a else h' ! a = h ! a"
      by (simp add: live' live1 same1 nth')
    moreover have "\<exists>h'' u''. setTransform None (h', u') = Inr (h'', u'')
          \<and> mTransform u'' = None
          \<and> (\<forall>a. live h'' a = (live h a \<and> mTransform u \<noteq> Some a))"
      using st2 lv by simp
    ultimately show ?thesis
      using st own' Some by simp
  qed
qed

lemma setTransform_replaces_example:
  "setTransform (Some 1) (heap1, updater0\<lparr>mTransform := Some 0\<rparr>)
     = Inr ([None, Some [2, 0, 0, 0, 2, 0, 0, 0, 1], Some [2, 0, 0, 0, 2, 0, 0, 0, 1]],
            updater0\<lparr>mTransform := Some 2\<rparr>)
   \<and> (\<exists>h'' u''. setTransform None
         ([None, Some [2, 0, 0, 0, 2, 0, 0, 0, 1], Some [2, 0, 0, 0, 2, 0, 0, 0, 1]],
          updater0\<lparr>mTransform := Some 2\<rparr>) = Inr (h'', u'')
        \<and> mTransform u'' = None \<and> \<not> live h'' 0 \<and> live h'' 1 \<and> \<not> live h'' 2)"
proof -
  let ?u = "updater0\<lparr>mTransform := Some 0\<rparr>"
  have own: "owns_transform heap1 ?u"
    by (simp add: owns_transform_def live_def heap1_def)
  have arg: "callers_matrix heap1 ?u (Some 1)"
    by (simp add: callers_matrix_def live_def heap1_def)
  have run: "setTransform (Some 1) (heap1, ?u)
     = Inr ([None, Some [2, 0, 0, 0, 2, 0, 0, 0, 1], Some [2, 0, 0, 0, 2, 0, 0, 0, 1]],
            updater0\<lparr>mTransform := Some 2\<rparr>)"
    by (simp add: setTransform_def delete_matrix_def read_matrix_def new_matrix_def live_def
        heap1_def)
  have l: "live heap1 0" "live heap1 1" "\<not> live heap1 2"
    by (simp_all add: live_def heap1_def)
  from setTransform_replaces [OF own arg] run l show ?thesis
    by auto
qed

text \<open>
  The argument may also be the updater's own matrix, the pointer \<open>getTransform\<close> hands
  out: then line 79 deletes the matrix and line 80 copies from it.
\<close>

lemma setTransform_aliased:
  assumes "live h p" and "mTransform u = Some p"
  shows "setTransform (getTransform u) (h, u) = Inl UseAfterFree"
  using assms
  by (simp add: setTransform_def getTransform_def delete_matrix_def read_matrix_def live_def)

text \<open>
  C6. The claim says that after \<open>setTransform(m)\<close> with a non-null \<open>m\<close> the stored
  transform is a copy of \<open>m\<close>, on every call. The code does this for every argument but
  one: for an updater whose transform is the live matrix at address 0,
  \<open>setTransform(getTransform())\<close> deletes that matrix first and then reads it for the copy,
  a use after free, so no copy of \<open>m\<close> is stored.
\<close>

theorem setTransform_self_alias:
  "live heap1 0
   \<and> getTransform (updater0\<lparr>mTransform := Some 0\<rparr>) = Some 0
   \<and> setTransform (getTransform (updater0\<lparr>mTransform := Some 0\<rparr>))
        (heap1, updater0\<lparr>mTransform := Some 0\<rparr>) = Inl UseAfterFree"
  by (simp add: setTransform_def getTransform_def delete_matrix_def read_matrix_def live_def
      heap1_def)

section \<open>The slot cache\<close>

lemma held_gpu_call: "held (gpu_call c w) g = held w g"
  by (simp add: held_def gpu_call_def split: option.splits)

lemma textures_gpu_call: "textures (gpu_call c w) = textures w"
  by (simp add: gpu_call_def split: option.splits)

lemma held_drop_ref: "held (drop_ref h w) g = (held w g \<and> g \<noteq> h)"
  by (cases "g = h") (auto simp: held_def drop_ref_def)

lemma length_drop_ref: "length (textures (drop_ref h w)) = length (textures w)"
  by (simp add: drop_ref_def)

lemma nth_drop_ref: "g \<noteq> h \<Longrightarrow> textures (drop_ref h w) ! g = textures w ! g"
  by (simp add: drop_ref_def)

lemma clear_empty: "mTextureRelease slot = None \<Longrightarrow> clear c (w, slot) = Inr (w, slot)"
  by (simp add: clear_def)

lemma clear_held:
  "mTextureRelease slot = Some h \<Longrightarrow> held w h \<Longrightarrow>
     clear c (w, slot) = Inr (gpu_call c (drop_ref h w), slot\<lparr>mTextureRelease := None\<rparr>)"
  by (simp add: clear_def)

lemma clear_twice_faults:
  "mTextureRelease slot = Some h \<Longrightarrow> held w h \<Longrightarrow>
     clear c (gpu_call c (drop_ref h w), slot) = Inl DoubleRelease"
  by (simp add: clear_def held_gpu_call held_drop_ref)

lemma clear_effect:
  assumes "clear c (w, slot) = Inr (w', slot')"
  shows "slot' = slot\<lparr>mTextureRelease := None\<rparr> \<and> layers w' = layers w \<and> sources w' = sources w
     \<and> length (textures w') = length (textures w)
     \<and> (\<forall>g. held w' g = (held w g \<and> mTextureRelease slot \<noteq> Some g))"
proof (cases "mTextureRelease slot")
  case None
  with assms show ?thesis by (auto simp: clear_def)
next
  case (Some h)
  with assms have hh: "held w h" and w': "w' = gpu_call c (drop_ref h w)"
    and s': "slot' = slot\<lparr>mTextureRelease := None\<rparr>"
    by (auto simp: clear_def split: if_splits)
  have "layers w' = layers w" "sources w' = sources w" "length (textures w') = length (textures w)"
    by (simp_all add: w' gpu_call_def drop_ref_def split: option.splits)
  moreover have "\<forall>g. held w' g = (held w g \<and> mTextureRelease slot \<noteq> Some g)"
    using Some by (auto simp: w' held_gpu_call held_drop_ref)
  ultimately show ?thesis using s' by simp
qed

lemma releaseQueueOwnership_effect:
  assumes "releaseQueueOwnership c (w, slot) = Inr (w', slot')"
  shows "slot' = slot \<and> layers w' = layers w \<and> sources w' = sources w
     \<and> (\<forall>g. held w' g = held w g)"
proof (cases "mTextureRelease slot")
  case None
  with assms show ?thesis by (auto simp: releaseQueueOwnership_def)
next
  case (Some h)
  with assms have lt: "h < length (textures w)"
    and w': "w' = gpu_call (Some c)
        (w\<lparr>textures := (textures w)[h := (textures w ! h)\<lparr>queueOwned := False\<rparr>]\<rparr>)"
    and s': "slot' = slot"
    by (auto simp: releaseQueueOwnership_def split: if_splits)
  have "held w' g = held w g" for g
    using lt by (cases "g = h") (auto simp: w' textures_gpu_call held_def)
  moreover have "layers w' = layers w" "sources w' = sources w"
    by (simp_all add: w' gpu_call_def)
  ultimately show ?thesis using s' by simp
qed

lemma create_succeeds_cong:
  "gpuOutcomes w' = gpuOutcomes w \<Longrightarrow> create_succeeds w' = create_succeeds w"
  by (simp add: create_succeeds_def)

lemma clear_total:
  assumes ok: "slot_ok w slot"
  shows "\<exists>w1. clear c (w, slot) = Inr (w1, slot\<lparr>mTextureRelease := None\<rparr>)
     \<and> layers w1 = layers w \<and> sources w1 = sources w \<and> producerFrames w1 = producerFrames w
     \<and> resolutions w1 = resolutions w \<and> gpuOutcomes w1 = gpuOutcomes w
     \<and> length (textures w1) = length (textures w)
     \<and> (\<forall>g < length (textures w). textures w1 ! g =
            (if mTextureRelease slot = Some g then (textures w ! g)\<lparr>cacheRef := False\<rparr>
             else textures w ! g))"
proof (cases "mTextureRelease slot")
  case None
  then have "slot\<lparr>mTextureRelease := None\<rparr> = slot" by simp
  with None show ?thesis by (simp add: clear_empty)
next
  case (Some h)
  with ok have hh: "held w h" by (simp add: slot_ok_def)
  define w1 where "w1 = gpu_call c (drop_ref h w)"
  have cl: "clear c (w, slot) = Inr (w1, slot\<lparr>mTextureRelease := None\<rparr>)"
    using Some hh by (simp add: clear_held w1_def)
  have tex: "textures w1 = (textures w)[h := (textures w ! h)\<lparr>cacheRef := False\<rparr>]"
    by (simp add: w1_def textures_gpu_call drop_ref_def)
  have "layers w1 = layers w" "sources w1 = sources w" "producerFrames w1 = producerFrames w"
    "resolutions w1 = resolutions w" "gpuOutcomes w1 = gpuOutcomes w"
    by (simp_all add: w1_def gpu_call_def drop_ref_def split: option.splits)
  moreover have "length (textures w1) = length (textures w)" by (simp add: tex)
  moreover have "\<forall>g < length (textures w). textures w1 ! g =
      (if mTextureRelease slot = Some g then (textures w ! g)\<lparr>cacheRef := False\<rparr>
       else textures w ! g)"
    using Some by (auto simp: tex)
  ultimately show ?thesis using cl by blast
qed

text \<open>
  What one resolution does, for an entry whose handle, if any, is held by the cache.
\<close>

lemma createIfNeeded_outcome:
  assumes ok: "slot_ok w slot"
  shows "\<exists>img w' slot'. createIfNeeded b d fc c (w, slot) = Inr (img, w', slot')
     \<and> resolutions w' = resolutions w @ [(b, d)]
     \<and> producerFrames w' = producerFrames w \<and> layers w' = layers w \<and> sources w' = sources w
     \<and> (if cache_hit slot b d fc
        then img = mTextureRelease slot \<and> slot' = slot \<and> textures w' = textures w
           \<and> gpuOutcomes w' = gpuOutcomes w
        else gpuOutcomes w' = tl (gpuOutcomes w)
           \<and> (\<forall>g < length (textures w). textures w' ! g =
                 (if mTextureRelease slot = Some g then (textures w ! g)\<lparr>cacheRef := False\<rparr>
                  else textures w ! g))
           \<and> (if create_succeeds w
              then img = Some (length (textures w))
                 \<and> slot' = \<lparr>mDataspace = d, mBuffer = Some b,
                             mTextureRelease = Some (length (textures w))\<rparr>
                 \<and> length (textures w') = Suc (length (textures w))
                 \<and> textures w' ! length (textures w)
                      = \<lparr>texBuffer = b, texDataspace = d, texContext = c,
                         cacheRef = True, queueOwned = True\<rparr>
              else img = None \<and> slot' = slot\<lparr>mTextureRelease := None\<rparr>
                 \<and> length (textures w') = length (textures w)))"
proof (cases "cache_hit slot b d fc")
  case True
  then show ?thesis by (simp add: createIfNeeded_def)
next
  case False
  define w0 where "w0 = w\<lparr>resolutions := resolutions w @ [(b, d)]\<rparr>"
  have w0: "layers w0 = layers w" "sources w0 = sources w" "producerFrames w0 = producerFrames w"
    "resolutions w0 = resolutions w @ [(b, d)]" "gpuOutcomes w0 = gpuOutcomes w"
    "textures w0 = textures w"
    by (simp_all add: w0_def)
  have "held w0 g = held w g" for g by (simp add: held_def w0)
  with ok have ok0: "slot_ok w0 slot" by (simp add: slot_ok_def split: option.splits)
  from clear_total [OF ok0, of "Some c"] obtain w1 where
    cl: "clear (Some c) (w0, slot) = Inr (w1, slot\<lparr>mTextureRelease := None\<rparr>)"
    and w1: "layers w1 = layers w" "sources w1 = sources w" "producerFrames w1 = producerFrames w"
      "resolutions w1 = resolutions w @ [(b, d)]" "gpuOutcomes w1 = gpuOutcomes w"
      "length (textures w1) = length (textures w)"
    and old: "\<forall>g < length (textures w). textures w1 ! g =
        (if mTextureRelease slot = Some g then (textures w ! g)\<lparr>cacheRef := False\<rparr>
         else textures w ! g)"
    by (auto simp: w0)
  define w2 where "w2 = gpu_call (Some c) (w1\<lparr>gpuOutcomes := tl (gpuOutcomes w1)\<rparr>)"
  have w2: "layers w2 = layers w" "sources w2 = sources w" "producerFrames w2 = producerFrames w"
    "resolutions w2 = resolutions w @ [(b, d)]" "gpuOutcomes w2 = tl (gpuOutcomes w)"
    "textures w2 = textures w1"
    by (simp_all add: w2_def gpu_call_def w1)
  have cs: "create_succeeds w1 = create_succeeds w"
    by (rule create_succeeds_cong) (rule w1)
  show ?thesis
  proof (cases "create_succeeds w")
    case True
    define new where "new = \<lparr>texBuffer = b, texDataspace = d, texContext = c,
        cacheRef = True, queueOwned = True\<rparr>"
    define w' where "w' = w2\<lparr>textures := textures w2 @ [new]\<rparr>"
    have run: "createIfNeeded b d fc c (w, slot)
        = Inr (Some (length (textures w)), w',
               \<lparr>mDataspace = d, mBuffer = Some b, mTextureRelease = Some (length (textures w))\<rparr>)"
      using False True cl cs
      by (simp add: createIfNeeded_def Let_def w0_def [symmetric] w'_def w2_def new_def
          textures_gpu_call w1)
    have "resolutions w' = resolutions w @ [(b, d)]" "producerFrames w' = producerFrames w"
      "layers w' = layers w" "sources w' = sources w" "gpuOutcomes w' = tl (gpuOutcomes w)"
      by (simp_all add: w'_def w2)
    moreover have "length (textures w') = Suc (length (textures w))"
      "textures w' ! length (textures w) = new"
      by (simp_all add: w'_def w2 w1 nth_append)
    moreover have "\<forall>g < length (textures w). textures w' ! g =
        (if mTextureRelease slot = Some g then (textures w ! g)\<lparr>cacheRef := False\<rparr>
         else textures w ! g)"
      using old by (simp add: w'_def w2 w1 nth_append)
    ultimately show ?thesis
      using run False True unfolding new_def by simp
  next
    case no: False
    have run: "createIfNeeded b d fc c (w, slot) = Inr (None, w2, slot\<lparr>mTextureRelease := None\<rparr>)"
      using False no cl cs
      by (simp add: createIfNeeded_def Let_def w0_def [symmetric] w2_def)
    have "\<forall>g < length (textures w). textures w2 ! g =
        (if mTextureRelease slot = Some g then (textures w ! g)\<lparr>cacheRef := False\<rparr>
         else textures w ! g)"
      using old by (simp add: w2)
    moreover have "length (textures w2) = length (textures w)" by (simp add: w2 w1)
    ultimately show ?thesis
      using run False no w2 by simp
  qed
qed

text \<open>
  C3, as the modelled operation has it. For a cache entry whose handle, if any, is held
  by the cache: \<open>createIfNeeded\<close> with the cached buffer and dataspace and
  \<open>forceCreate = false\<close> returns the cached image and leaves the entry and the textures as
  they are (the world only records the resolution). With a differing buffer, a differing
  dataspace, \<open>forceCreate = true\<close> or no cached handle, it drops the cache's reference to
  the previous handle (once: its \<open>cacheRef\<close> goes from true to false, and no other handle
  changes), so the previous handle is never leaked; then, if the GPU creates the texture,
  it returns a new handle for the given buffer, dataspace and context, which the entry
  holds, and if the creation fails it returns a null image, creates nothing and leaves
  the entry without a handle.
\<close>

theorem createIfNeeded_cache:
  assumes ok: "slot_ok w slot"
  shows "(mTextureRelease slot = Some h \<and> mBuffer slot = Some buffer \<and> mDataspace slot = dataspace
          \<longrightarrow> createIfNeeded buffer dataspace False context (w, slot)
                = Inr (Some h, w\<lparr>resolutions := resolutions w @ [(buffer, dataspace)]\<rparr>, slot))
     \<and> (mBuffer slot \<noteq> Some buffer \<or> mDataspace slot \<noteq> dataspace \<or> forceCreate
          \<or> mTextureRelease slot = None
          \<longrightarrow> (\<exists>img w' slot'. createIfNeeded buffer dataspace forceCreate context (w, slot)
                  = Inr (img, w', slot')
               \<and> (\<forall>g < length (textures w).
                     if mTextureRelease slot = Some g
                     then textures w' ! g = (textures w ! g)\<lparr>cacheRef := False\<rparr>
                     else textures w' ! g = textures w ! g)
               \<and> (if create_succeeds w
                  then img = Some (length (textures w))
                     \<and> slot' = \<lparr>mDataspace = dataspace, mBuffer = Some buffer,
                                 mTextureRelease = Some (length (textures w))\<rparr>
                     \<and> textures w' ! length (textures w)
                          = \<lparr>texBuffer = buffer, texDataspace = dataspace, texContext = context,
                             cacheRef = True, queueOwned = True\<rparr>
                     \<and> length (textures w') = Suc (length (textures w))
                     \<and> slot_ok w' slot'
                  else img = None
                     \<and> slot' = slot\<lparr>mTextureRelease := None\<rparr>
                     \<and> length (textures w') = length (textures w))))"
proof (intro conjI impI)
  assume "mTextureRelease slot = Some h \<and> mBuffer slot = Some buffer \<and> mDataspace slot = dataspace"
  then show "createIfNeeded buffer dataspace False context (w, slot)
      = Inr (Some h, w\<lparr>resolutions := resolutions w @ [(buffer, dataspace)]\<rparr>, slot)"
    by (simp add: createIfNeeded_def cache_hit_def)
next
  assume "mBuffer slot \<noteq> Some buffer \<or> mDataspace slot \<noteq> dataspace \<or> forceCreate
      \<or> mTextureRelease slot = None"
  then have miss: "\<not> cache_hit slot buffer dataspace forceCreate"
    by (auto simp: cache_hit_def)
  from createIfNeeded_outcome [OF ok, of buffer dataspace forceCreate "context"] miss
  obtain img w' slot' where
    run: "createIfNeeded buffer dataspace forceCreate context (w, slot) = Inr (img, w', slot')"
    and old: "\<forall>g < length (textures w). textures w' ! g =
        (if mTextureRelease slot = Some g then (textures w ! g)\<lparr>cacheRef := False\<rparr>
         else textures w ! g)"
    and new: "if create_succeeds w
        then img = Some (length (textures w))
           \<and> slot' = \<lparr>mDataspace = dataspace, mBuffer = Some buffer,
                       mTextureRelease = Some (length (textures w))\<rparr>
           \<and> length (textures w') = Suc (length (textures w))
           \<and> textures w' ! length (textures w)
                = \<lparr>texBuffer = buffer, texDataspace = dataspace, texContext = context,
                   cacheRef = True, queueOwned = True\<rparr>
        else img = None \<and> slot' = slot\<lparr>mTextureRelease := None\<rparr>
           \<and> length (textures w') = length (textures w)"
    by auto
  have "create_succeeds w \<Longrightarrow> slot_ok w' slot'"
    using new by (simp add: slot_ok_def held_def)
  with run old new
  show "\<exists>img w' slot'. createIfNeeded buffer dataspace forceCreate context (w, slot)
                  = Inr (img, w', slot')
               \<and> (\<forall>g < length (textures w).
                     if mTextureRelease slot = Some g
                     then textures w' ! g = (textures w ! g)\<lparr>cacheRef := False\<rparr>
                     else textures w' ! g = textures w ! g)
               \<and> (if create_succeeds w
                  then img = Some (length (textures w))
                     \<and> slot' = \<lparr>mDataspace = dataspace, mBuffer = Some buffer,
                                 mTextureRelease = Some (length (textures w))\<rparr>
                     \<and> textures w' ! length (textures w)
                          = \<lparr>texBuffer = buffer, texDataspace = dataspace, texContext = context,
                             cacheRef = True, queueOwned = True\<rparr>
                     \<and> length (textures w') = Suc (length (textures w))
                     \<and> slot_ok w' slot'
                  else img = None
                     \<and> slot' = slot\<lparr>mTextureRelease := None\<rparr>
                     \<and> length (textures w') = length (textures w))"
    by (cases "create_succeeds w") auto
qed

text \<open>
  The claim as written says a new handle is always created. It is not when the GPU
  fails to create the texture: called with a differing buffer (12 for the cached 11) in
  a world whose next creation fails, \<open>createIfNeeded\<close> releases the cached handle and
  returns a null image, with no handle created.
\<close>

theorem createIfNeeded_cache_counterexample:
  "createIfNeeded 12 1 False 3
       (world1\<lparr>gpuOutcomes := [False]\<rparr>,
        \<lparr>mDataspace = 1, mBuffer = Some 11, mTextureRelease = Some 0\<rparr>)
     = Inr (None,
            world1\<lparr>textures := [\<lparr>texBuffer = 11, texDataspace = 1, texContext = 3,
                cacheRef = False, queueOwned = True\<rparr>],
              resolutions := [(11, 1), (12, 1)], gpuCalls := 3, gpuOutcomes := []\<rparr>,
            \<lparr>mDataspace = 1, mBuffer = Some 11, mTextureRelease = None\<rparr>)"
  by (simp add: createIfNeeded_def cache_hit_def create_succeeds_def clear_def gpu_call_def
      drop_ref_def held_def Let_def world0_def world1_def)

theorem createIfNeeded_cache_witness:
  "createIfNeeded 11 1 False 3
       (world1, \<lparr>mDataspace = 1, mBuffer = Some 11, mTextureRelease = Some 0\<rparr>)
     = Inr (Some 0, world1\<lparr>resolutions := resolutions world1 @ [(11, 1)]\<rparr>,
            \<lparr>mDataspace = 1, mBuffer = Some 11, mTextureRelease = Some 0\<rparr>)
   \<and> (\<exists>w' slot'. createIfNeeded 12 1 False 3
          (world1, \<lparr>mDataspace = 1, mBuffer = Some 11, mTextureRelease = Some 0\<rparr>)
          = Inr (Some 1, w', slot')
        \<and> slot' = \<lparr>mDataspace = 1, mBuffer = Some 12, mTextureRelease = Some 1\<rparr>
        \<and> textures w' ! 0 = \<lparr>texBuffer = 11, texDataspace = 1, texContext = 3,
              cacheRef = False, queueOwned = True\<rparr>
        \<and> textures w' ! 1 = \<lparr>texBuffer = 12, texDataspace = 1, texContext = 3,
              cacheRef = True, queueOwned = True\<rparr>
        \<and> length (textures w') = 2)
   \<and> (\<exists>w'. createIfNeeded 12 1 False 3
          (world1\<lparr>gpuOutcomes := [False]\<rparr>,
           \<lparr>mDataspace = 1, mBuffer = Some 11, mTextureRelease = Some 0\<rparr>)
          = Inr (None, w', \<lparr>mDataspace = 1, mBuffer = Some 11, mTextureRelease = None\<rparr>)
        \<and> textures w' = [\<lparr>texBuffer = 11, texDataspace = 1, texContext = 3,
              cacheRef = False, queueOwned = True\<rparr>])"
proof -
  let ?slot = "\<lparr>mDataspace = 1, mBuffer = Some 11, mTextureRelease = Some 0\<rparr>"
  let ?wf = "world1\<lparr>gpuOutcomes := [False]\<rparr>"
  have ok: "slot_ok world1 ?slot" by (simp add: slot_ok_def held_def world1_def)
  have okf: "slot_ok ?wf ?slot" by (simp add: slot_ok_def held_def world1_def)
  have len: "length (textures world1) = 1" "length (textures ?wf) = 1"
    and t0: "textures world1 ! 0 = \<lparr>texBuffer = 11, texDataspace = 1, texContext = 3,
        cacheRef = True, queueOwned = True\<rparr>"
      "textures ?wf ! 0 = \<lparr>texBuffer = 11, texDataspace = 1, texContext = 3,
        cacheRef = True, queueOwned = True\<rparr>"
    and cs: "create_succeeds world1" "\<not> create_succeeds ?wf"
    by (simp_all add: world1_def world0_def create_succeeds_def)
  have hit: "createIfNeeded 11 1 False 3 (world1, ?slot)
     = Inr (Some 0, world1\<lparr>resolutions := resolutions world1 @ [(11, 1)]\<rparr>, ?slot)"
    using createIfNeeded_cache [OF ok, of 0 11 1 3 False] by simp
  from createIfNeeded_cache [OF ok, of 0 12 1 3 False] cs(1) obtain img w' slot' where
    run: "createIfNeeded 12 1 False 3 (world1, ?slot) = Inr (img, w', slot')"
    and img: "img = Some (length (textures world1))"
    and s': "slot' = \<lparr>mDataspace = 1, mBuffer = Some 12,
        mTextureRelease = Some (length (textures world1))\<rparr>"
    and new: "textures w' ! length (textures world1)
        = \<lparr>texBuffer = 12, texDataspace = 1, texContext = 3, cacheRef = True, queueOwned = True\<rparr>"
    and l': "length (textures w') = Suc (length (textures world1))"
    and old: "\<forall>g < length (textures world1).
        if mTextureRelease ?slot = Some g
        then textures w' ! g = (textures world1 ! g)\<lparr>cacheRef := False\<rparr>
        else textures w' ! g = textures world1 ! g"
    by auto
  from old have "textures w' ! 0 = (textures world1 ! 0)\<lparr>cacheRef := False\<rparr>"
    by (simp add: len)
  with t0 have o0: "textures w' ! 0 = \<lparr>texBuffer = 11, texDataspace = 1, texContext = 3,
      cacheRef = False, queueOwned = True\<rparr>"
    by simp
  have created: "\<exists>w' slot'. createIfNeeded 12 1 False 3 (world1, ?slot) = Inr (Some 1, w', slot')
        \<and> slot' = \<lparr>mDataspace = 1, mBuffer = Some 12, mTextureRelease = Some 1\<rparr>
        \<and> textures w' ! 0 = \<lparr>texBuffer = 11, texDataspace = 1, texContext = 3,
              cacheRef = False, queueOwned = True\<rparr>
        \<and> textures w' ! 1 = \<lparr>texBuffer = 12, texDataspace = 1, texContext = 3,
              cacheRef = True, queueOwned = True\<rparr>
        \<and> length (textures w') = 2"
    using run img s' new l' o0 by (simp add: len)
  from createIfNeeded_cache [OF okf, of 0 12 1 3 False] cs(2) obtain imgf wf slotf where
    runf: "createIfNeeded 12 1 False 3 (?wf, ?slot) = Inr (imgf, wf, slotf)"
    and imgf: "imgf = None" and sf: "slotf = ?slot\<lparr>mTextureRelease := None\<rparr>"
    and lf: "length (textures wf) = length (textures ?wf)"
    and oldf: "\<forall>g < length (textures ?wf).
        if mTextureRelease ?slot = Some g
        then textures wf ! g = (textures ?wf ! g)\<lparr>cacheRef := False\<rparr>
        else textures wf ! g = textures ?wf ! g"
    by auto
  from oldf have "textures wf ! 0 = (textures ?wf ! 0)\<lparr>cacheRef := False\<rparr>"
    by (simp add: len)
  with t0 have "textures wf ! 0 = \<lparr>texBuffer = 11, texDataspace = 1, texContext = 3,
      cacheRef = False, queueOwned = True\<rparr>"
    by simp
  moreover from lf have "length (textures wf) = 1" by (simp add: len)
  ultimately have "textures wf = [\<lparr>texBuffer = 11, texDataspace = 1, texContext = 3,
      cacheRef = False, queueOwned = True\<rparr>]"
    by (cases "textures wf") auto
  with runf imgf sf have failed: "\<exists>w'. createIfNeeded 12 1 False 3 (?wf, ?slot)
          = Inr (None, w', \<lparr>mDataspace = 1, mBuffer = Some 11, mTextureRelease = None\<rparr>)
        \<and> textures w' = [\<lparr>texBuffer = 11, texDataspace = 1, texContext = 3,
              cacheRef = False, queueOwned = True\<rparr>]"
    by simp
  from hit created failed show ?thesis by blast
qed

section \<open>Teardown\<close>

lemma cached_handles_Nil: "cached_handles [] = []"
  by (simp add: cached_handles_def map_filter_simps)

lemma cached_handles_Cons:
  "cached_handles ((k, slot) # rest) =
     (case mTextureRelease slot of None \<Rightarrow> cached_handles rest
      | Some h \<Rightarrow> h # cached_handles rest)"
  by (simp add: cached_handles_def map_filter_simps split: option.splits)

lemma held_drop_refs: "held (drop_refs c hs w) g = (held w g \<and> g \<notin> set hs)"
  by (induction hs arbitrary: w) (auto simp: held_gpu_call held_drop_ref)

lemma clear_all_ok:
  "distinct (cached_handles slots) \<Longrightarrow> list_all (held w) (cached_handles slots) \<Longrightarrow>
     clear_all c w slots = Inr (drop_refs c (cached_handles slots) w, cleared slots)"
proof (induction slots arbitrary: w)
  case Nil
  show ?case by (simp add: cached_handles_Nil cleared_def)
next
  case (Cons e slots)
  obtain k slot where e: "e = (k, slot)" by (cases e)
  show ?case
  proof (cases "mTextureRelease slot")
    case None
    with Cons.prems e have d: "distinct (cached_handles slots)"
      and a: "list_all (held w) (cached_handles slots)"
      by (simp_all add: cached_handles_Cons)
    have "slot\<lparr>mTextureRelease := None\<rparr> = slot" using None by simp
    with Cons.IH [OF d a] None e show ?thesis
      by (simp add: clear_empty cached_handles_Cons cleared_def)
  next
    case (Some h)
    with Cons.prems e have d: "distinct (cached_handles slots)"
      and nin: "h \<notin> set (cached_handles slots)"
      and hh: "held w h" and a: "list_all (held w) (cached_handles slots)"
      by (simp_all add: cached_handles_Cons)
    have a': "list_all (held (gpu_call c (drop_ref h w))) (cached_handles slots)"
      using a nin by (auto simp: list_all_iff held_gpu_call held_drop_ref)
    from Cons.IH [OF d a'] Some hh e show ?thesis
      by (simp add: clear_held cached_handles_Cons cleared_def)
  qed
qed

lemma cached_handles_cleared: "cached_handles (cleared slots) = []"
  by (induction slots) (auto simp: cleared_def cached_handles_Nil cached_handles_Cons)

lemma cleared_cleared: "cleared (cleared slots) = cleared slots"
  by (induction slots) (auto simp: cleared_def)

lemma layers_gpu_call: "layers (gpu_call c w) = layers w"
  by (simp add: gpu_call_def split: option.splits)

lemma layers_drop_refs: "layers (drop_refs c hs w) = layers w"
  by (induction hs arbitrary: w) (auto simp: layers_gpu_call drop_ref_def)

lemma gpuCalls_drop_refs_None: "gpuCalls (drop_refs None hs w) = gpuCalls w"
  by (induction hs arbitrary: w) (auto simp: gpu_call_def drop_ref_def)

text \<open>
  C2. For an updater consistent with the world, \<open>onContextDestroyed\<close> succeeds, drops the
  cache's reference to each cached handle, releases the render target and issues no GPU
  call; \<open>destroyLayer\<close> after it succeeds and changes nothing: it finds no handle and no
  render target to release, so nothing is released a second time.
\<close>

theorem teardown_twice:
  assumes ok: "consistent w u"
  shows "\<exists>w1 u1. onContextDestroyed (w, u) = Inr (w1, u1)
     \<and> destroyLayer (w1, u1) = Inr (w1, u1)
     \<and> mLayer u1 = None
     \<and> cached_handles (mImageSlots u1) = []
     \<and> (\<forall>l. layers w1 l = (if mLayer u = Some l then None else layers w l))
     \<and> (\<forall>h. held w1 h = (held w h \<and> h \<notin> set (cached_handles (mImageSlots u))))
     \<and> gpuCalls w1 = gpuCalls w"
proof -
  let ?hs = "cached_handles (mImageSlots u)"
  define wa where "wa = drop_refs None ?hs w"
  define ua where "ua = u\<lparr>mImageSlots := cleared (mImageSlots u)\<rparr>"
  define w1 where "w1 = (case mLayer u of None \<Rightarrow> wa | Some l \<Rightarrow> wa\<lparr>layers := (layers wa)(l := None)\<rparr>)"
  define u1 where "u1 = ua\<lparr>mLayer := None\<rparr>"
  from ok have d: "distinct ?hs" and a: "list_all (held w) ?hs"
    and lay: "case mLayer u of None \<Rightarrow> True | Some l \<Rightarrow> l \<in> dom (layers w)"
    by (simp_all add: consistent_def)
  have ca: "clear_all None w (mImageSlots u) = Inr (wa, mImageSlots ua)"
    using clear_all_ok [OF d a] by (simp add: wa_def ua_def)
  have rl: "release_layer (wa, ua) = Inr (w1, u1)"
  proof (cases "mLayer u")
    case None
    then have "ua\<lparr>mLayer := None\<rparr> = ua" by (simp add: ua_def)
    with None show ?thesis by (simp add: release_layer_def w1_def u1_def ua_def)
  next
    case (Some l)
    with lay have "l \<in> dom (layers wa)" by (simp add: wa_def layers_drop_refs)
    with Some show ?thesis by (simp add: release_layer_def w1_def u1_def ua_def)
  qed
  have first: "onContextDestroyed (w, u) = Inr (w1, u1)"
    using ca rl by (simp add: onContextDestroyed_def teardown_def ua_def)
  have slots1: "mImageSlots u1 = cleared (mImageSlots u)" by (simp add: u1_def ua_def)
  have ca2: "clear_all (Some (mRenderState u1)) w1 (mImageSlots u1) = Inr (w1, mImageSlots u1)"
    using clear_all_ok [of "mImageSlots u1" w1 "Some (mRenderState u1)"]
    by (simp add: slots1 cached_handles_cleared cleared_cleared)
  have "u1\<lparr>mImageSlots := mImageSlots u1\<rparr> = u1" by simp
  then have second: "destroyLayer (w1, u1) = Inr (w1, u1)"
    using ca2 by (simp add: destroyLayer_def teardown_def release_layer_def u1_def)
  have "mLayer u1 = None" by (simp add: u1_def)
  moreover have "cached_handles (mImageSlots u1) = []"
    by (simp add: slots1 cached_handles_cleared)
  moreover have "\<forall>l. layers w1 l = (if mLayer u = Some l then None else layers w l)"
    by (auto simp: w1_def wa_def layers_drop_refs split: option.splits)
  moreover have "\<forall>h. held w1 h = (held w h \<and> h \<notin> set ?hs)"
    using held_drop_refs [of None ?hs w]
    by (simp add: w1_def wa_def held_def split: option.splits)
  moreover have "gpuCalls w1 = gpuCalls w"
    by (simp add: w1_def wa_def gpuCalls_drop_refs_None split: option.splits)
  ultimately show ?thesis using first second by blast
qed

lemma consistent_example: "consistent world1 attached1"
  by (simp add: consistent_def cached_handles_def map_filter_simps held_def world1_def world0_def
      attached1_def attached0_def updater0_def)

text \<open>The example state is the one latching \<open>B1\<close> leaves.\<close>

lemma example_reached:
  "updateLayer False 0 (0, 0, 0, 0) None (world0\<lparr>producerFrames := [B1]\<rparr>, updateTexImage attached0)
     = Inr (world1, attached1)"
  by (simp add: updateLayer_def updateTexImage_def createIfNeeded_def cache_hit_def
      create_succeeds_def clear_def gpu_call_def slot_at_def ImageSlot_init_def Let_def
      world0_def world1_def attached0_def attached1_def updater0_def B1_def)

theorem teardown_twice_witness:
  "consistent world1 attached1
   \<and> (\<exists>w1 u1. onContextDestroyed (world1, attached1) = Inr (w1, u1)
        \<and> destroyLayer (w1, u1) = Inr (w1, u1)
        \<and> mLayer u1 = None \<and> layers w1 5 = None \<and> \<not> held w1 0 \<and> gpuCalls w1 = 1)"
proof -
  have l: "mLayer attached1 = Some 5" "layers world1 5 \<noteq> None" "gpuCalls world1 = 1"
    "cached_handles (mImageSlots attached1) = [0]"
    by (simp_all add: attached1_def attached0_def world1_def world0_def cached_handles_def
        map_filter_simps)
  from teardown_twice [OF consistent_example] obtain w1 u1 where
    "onContextDestroyed (world1, attached1) = Inr (w1, u1)"
    "destroyLayer (w1, u1) = Inr (w1, u1)" "mLayer u1 = None"
    "\<forall>l. layers w1 l = (if mLayer attached1 = Some l then None else layers world1 l)"
    "\<forall>h. held w1 h = (held world1 h \<and> h \<notin> set (cached_handles (mImageSlots attached1)))"
    "gpuCalls w1 = gpuCalls world1"
    by blast
  with l consistent_example show ?thesis by auto
qed

section \<open>Latching a frame and detaching the producer\<close>

text \<open>
  Whether a resolution yields an image: the entry answers from the cache, or the GPU
  creates the texture.
\<close>

lemma createIfNeeded_image:
  assumes ok: "slot_ok w slot"
  shows "\<exists>img w' slot'. createIfNeeded b d False c (w, slot) = Inr (img, w', slot')
     \<and> resolutions w' = resolutions w @ [(b, d)]
     \<and> producerFrames w' = producerFrames w \<and> layers w' = layers w \<and> sources w' = sources w
     \<and> (if cache_hit slot b d False \<or> create_succeeds w
        then \<exists>h. img = Some h \<and> held w' h
               \<and> slot' = \<lparr>mDataspace = d, mBuffer = Some b, mTextureRelease = Some h\<rparr>
        else img = None \<and> slot' = slot\<lparr>mTextureRelease := None\<rparr>)"
proof -
  from createIfNeeded_outcome [OF ok, of b d False c] obtain img w' slot' where
    run: "createIfNeeded b d False c (w, slot) = Inr (img, w', slot')"
    and keep: "resolutions w' = resolutions w @ [(b, d)]" "producerFrames w' = producerFrames w"
      "layers w' = layers w" "sources w' = sources w"
    and alt: "if cache_hit slot b d False
        then img = mTextureRelease slot \<and> slot' = slot \<and> textures w' = textures w
           \<and> gpuOutcomes w' = gpuOutcomes w
        else gpuOutcomes w' = tl (gpuOutcomes w)
           \<and> (\<forall>g < length (textures w). textures w' ! g =
                 (if mTextureRelease slot = Some g then (textures w ! g)\<lparr>cacheRef := False\<rparr>
                  else textures w ! g))
           \<and> (if create_succeeds w
              then img = Some (length (textures w))
                 \<and> slot' = \<lparr>mDataspace = d, mBuffer = Some b,
                             mTextureRelease = Some (length (textures w))\<rparr>
                 \<and> length (textures w') = Suc (length (textures w))
                 \<and> textures w' ! length (textures w)
                      = \<lparr>texBuffer = b, texDataspace = d, texContext = c,
                         cacheRef = True, queueOwned = True\<rparr>
              else img = None \<and> slot' = slot\<lparr>mTextureRelease := None\<rparr>
                 \<and> length (textures w') = length (textures w))"
    by blast
  have "if cache_hit slot b d False \<or> create_succeeds w
        then \<exists>h. img = Some h \<and> held w' h
               \<and> slot' = \<lparr>mDataspace = d, mBuffer = Some b, mTextureRelease = Some h\<rparr>
        else img = None \<and> slot' = slot\<lparr>mTextureRelease := None\<rparr>"
  proof (cases "cache_hit slot b d False")
    case True
    then obtain h where h: "mTextureRelease slot = Some h" "mBuffer slot = Some b"
      "mDataspace slot = d"
      by (auto simp: cache_hit_def)
    with ok have "held w h" by (simp add: slot_ok_def)
    with alt True have "held w' h" by (simp add: held_def)
    moreover have "slot = \<lparr>mDataspace = d, mBuffer = Some b, mTextureRelease = Some h\<rparr>"
      using h by simp
    ultimately show ?thesis using alt True h by simp
  next
    case False
    show ?thesis
    proof (cases "create_succeeds w")
      case True
      with alt False have "held w' (length (textures w))" by (simp add: held_def)
      with alt False True show ?thesis by simp
    next
      case no: False
      with alt False show ?thesis by simp
    qed
  qed
  with run keep show ?thesis by blast
qed

text \<open>
  C1, as the modelled operation has it. With a producer source, a render target and at
  least one frame available, \<open>n + 1\<close> calls of \<open>updateTexImage\<close> followed by one
  \<open>updateLayer\<close> make exactly one cache resolution, for the buffer and dataspace of the
  newest frame. If the entry of that frame's slot answers from the cache or the GPU
  creates the texture, the entry then holds this buffer, the render target shows the
  entry's image and the pending flag is cleared, so that \<open>updateLayer\<close> called again (with
  any arguments, and whatever frames the producer has made available meanwhile) changes
  nothing. If the creation fails, the render target keeps what it shows, the entry is
  left without a handle and the pending flag stays set.
\<close>

theorem updateLayer_latches_latest:
  assumes src: "mSurfaceTexture u = Some src" and lay: "mLayer u = Some l"
    and fr: "producerFrames w \<noteq> []"
    and ok: "slot_ok w (slot_at (mImageSlots u) (frameSlot (last (producerFrames w))))"
  shows "\<exists>w' u'. updateLayer ff tt cr li (w, (updateTexImage ^^ Suc n) u) = Inr (w', u')
     \<and> resolutions w' = resolutions w
          @ [(frameBuffer (last (producerFrames w)), frameDataspace (last (producerFrames w)))]
     \<and> mCurrentSlot u' = frameSlot (last (producerFrames w))
     \<and> (if cache_hit (slot_at (mImageSlots u) (frameSlot (last (producerFrames w))))
              (frameBuffer (last (producerFrames w))) (frameDataspace (last (producerFrames w))) False
           \<or> create_succeeds w
        then mUpdateTexImage u' = False
           \<and> (\<exists>h. map_of (mImageSlots u') (frameSlot (last (producerFrames w)))
                    = Some \<lparr>mDataspace = frameDataspace (last (producerFrames w)),
                            mBuffer = Some (frameBuffer (last (producerFrames w))),
                            mTextureRelease = Some h\<rparr>
                 \<and> held w' h
                 \<and> layers w' l = Some \<lparr>boundImage = Some h, boundTextureTransform = tt,
                                        boundCropRect = cr, boundForceFilter = ff\<rparr>)
           \<and> (\<forall>fs. updateLayer ff' tt' cr' li' (w'\<lparr>producerFrames := fs\<rparr>, u')
                    = Inr (w'\<lparr>producerFrames := fs\<rparr>, u'))
        else mUpdateTexImage u' = True
           \<and> map_of (mImageSlots u') (frameSlot (last (producerFrames w)))
               = Some ((slot_at (mImageSlots u) (frameSlot (last (producerFrames w))))
                        \<lparr>mTextureRelease := None\<rparr>)
           \<and> layers w' l = layers w l)"
proof -
  define f where "f = last (producerFrames w)"
  define k where "k = frameSlot f"
  define w0 where "w0 = w\<lparr>producerFrames := []\<rparr>"
  define slot where "slot = slot_at (mImageSlots u) k"
  have w0: "resolutions w0 = resolutions w" "layers w0 = layers w"
    "create_succeeds w0 = create_succeeds w"
    by (simp_all add: w0_def create_succeeds_def)
  have "held w0 g = held w g" for g by (simp add: held_def w0_def)
  then have "slot_ok w0 slot"
    using ok by (simp add: slot_ok_def slot_def k_def f_def split: option.splits)
  from createIfNeeded_image [OF this, of "frameBuffer f" "frameDataspace f" "mRenderState u"]
  obtain img w1 slot1 where
    cr: "createIfNeeded (frameBuffer f) (frameDataspace f) False (mRenderState u) (w0, slot)
       = Inr (img, w1, slot1)"
    and res: "resolutions w1 = resolutions w @ [(frameBuffer f, frameDataspace f)]"
    and lay1: "layers w1 = layers w"
    and alt: "if cache_hit slot (frameBuffer f) (frameDataspace f) False \<or> create_succeeds w
        then \<exists>h. img = Some h \<and> held w1 h
               \<and> slot1 = \<lparr>mDataspace = frameDataspace f, mBuffer = Some (frameBuffer f),
                           mTextureRelease = Some h\<rparr>
        else img = None \<and> slot1 = slot\<lparr>mTextureRelease := None\<rparr>"
    unfolding w0 by blast
  define u1 where "u1 = u\<lparr>mImageSlots := AList.update k slot1 (mImageSlots u), mCurrentSlot := k\<rparr>"
  have look: "map_of (mImageSlots u1) k = Some slot1"
    by (simp add: u1_def AList.update_conv')
  have step: "updateLayer ff tt cr li (w, updateTexImage u) =
      (case img of None \<Rightarrow> Inr (w1, u1\<lparr>mUpdateTexImage := True\<rparr>)
       | Some h \<Rightarrow> Inr (w1\<lparr>layers := (layers w1)(l \<mapsto> \<lparr>boundImage = Some h,
             boundTextureTransform = tt, boundCropRect = cr, boundForceFilter = ff\<rparr>)\<rparr>,
           u1\<lparr>mUpdateTexImage := False\<rparr>))"
    using src lay fr cr
    by (simp add: updateLayer_def updateTexImage_def Let_def f_def [symmetric] k_def [symmetric]
        w0_def [symmetric] slot_def [symmetric] u1_def split: option.splits)
  show ?thesis
  proof (cases "cache_hit slot (frameBuffer f) (frameDataspace f) False \<or> create_succeeds w")
    case True
    with alt obtain h where img: "img = Some h" and hh: "held w1 h"
      and s1: "slot1 = \<lparr>mDataspace = frameDataspace f, mBuffer = Some (frameBuffer f),
          mTextureRelease = Some h\<rparr>"
      by auto
    define lv where "lv = \<lparr>boundImage = Some h, boundTextureTransform = tt,
        boundCropRect = cr, boundForceFilter = ff\<rparr>"
    define w' where "w' = w1\<lparr>layers := (layers w1)(l \<mapsto> lv)\<rparr>"
    define u' where "u' = u1\<lparr>mUpdateTexImage := False\<rparr>"
    have run: "updateLayer ff tt cr li (w, updateTexImage u) = Inr (w', u')"
      using step img by (simp add: w'_def u'_def lv_def)
    have "resolutions w' = resolutions w @ [(frameBuffer f, frameDataspace f)]"
      using res by (simp add: w'_def)
    moreover have "mCurrentSlot u' = k" "mUpdateTexImage u' = False"
      by (simp_all add: u'_def u1_def)
    moreover have "map_of (mImageSlots u') k = Some slot1" using look by (simp add: u'_def)
    moreover have "held w' h" using hh by (simp add: held_def w'_def)
    moreover have "layers w' l = Some lv" by (simp add: w'_def)
    moreover have "\<forall>fs. updateLayer ff' tt' cr' li' (w'\<lparr>producerFrames := fs\<rparr>, u')
        = Inr (w'\<lparr>producerFrames := fs\<rparr>, u')"
      by (simp add: updateLayer_def u'_def)
    ultimately show ?thesis
      using run True
      unfolding updateTexImage_funpow f_def [symmetric] k_def [symmetric] slot_def [symmetric]
        s1 lv_def
      by auto
  next
    case False
    with alt have img: "img = None" and s1: "slot1 = slot\<lparr>mTextureRelease := None\<rparr>"
      by auto
    define u' where "u' = u1\<lparr>mUpdateTexImage := True\<rparr>"
    have run: "updateLayer ff tt cr li (w, updateTexImage u) = Inr (w1, u')"
      using step img by (simp add: u'_def)
    have "mCurrentSlot u' = k" "mUpdateTexImage u' = True"
      by (simp_all add: u'_def u1_def)
    moreover have "map_of (mImageSlots u') k = Some (slot\<lparr>mTextureRelease := None\<rparr>)"
      using look s1 by (simp add: u'_def)
    moreover have "layers w1 l = layers w l" by (simp add: lay1)
    ultimately show ?thesis
      using run False res
      unfolding updateTexImage_funpow f_def [symmetric] k_def [symmetric] slot_def [symmetric]
      by auto
  qed
qed

text \<open>
  The claim as written says the pending flag is always cleared. It is not when the GPU
  fails to create the texture for the newest frame: after three \<open>updateTexImage\<close> calls
  and one \<open>updateLayer\<close> in a world whose next creation fails, one resolution has been
  made, the render target shows what it showed, and \<open>mUpdateTexImage\<close> is still set.
\<close>

theorem updateLayer_latches_latest_counterexample:
  "updateLayer True 0 (0, 0, 0, 0) None
       (world1\<lparr>producerFrames := [B1, B2], gpuOutcomes := [False]\<rparr>,
        (updateTexImage ^^ Suc 2) attached1)
     = Inr (world1\<lparr>textures := [\<lparr>texBuffer = 11, texDataspace = 1, texContext = 3,
                cacheRef = False, queueOwned = True\<rparr>],
              resolutions := [(11, 1), (12, 1)], gpuCalls := 3\<rparr>,
            attached1\<lparr>mImageSlots :=
                [(0, \<lparr>mDataspace = 1, mBuffer = Some 11, mTextureRelease = None\<rparr>)],
              mUpdateTexImage := True\<rparr>)
   \<and> mUpdateTexImage (attached1\<lparr>mImageSlots :=
                [(0, \<lparr>mDataspace = 1, mBuffer = Some 11, mTextureRelease = None\<rparr>)],
              mUpdateTexImage := True\<rparr>) = True"
proof -
  have fp: "(updateTexImage ^^ Suc 2) attached1 = updateTexImage attached1"
    by (rule updateTexImage_funpow)
  show ?thesis
    unfolding fp
    by (simp add: updateLayer_def updateTexImage_def createIfNeeded_def cache_hit_def
        create_succeeds_def clear_def gpu_call_def drop_ref_def held_def slot_at_def Let_def
        world0_def world1_def attached0_def attached1_def updater0_def B2_def)
qed

lemma handle_of_slot:
  "map_of slots k = Some slot \<Longrightarrow> mTextureRelease slot = Some h \<Longrightarrow>
     h \<in> set (cached_handles slots)"
proof (induction slots)
  case Nil
  then show ?case by simp
next
  case (Cons e slots)
  obtain k' s' where e: "e = (k', s')" by (cases e)
  with Cons show ?case
    by (cases "k' = k") (auto simp: cached_handles_Cons split: option.splits)
qed

text \<open>
  C4. For an updater consistent with the world, \<open>detachSurfaceTexture\<close> succeeds, releases
  the producer source and clears the active slot; called again on the state it leaves, it
  succeeds and returns that same state: no source and no handle is released twice.
\<close>

theorem detachSurfaceTexture_idempotent:
  assumes ok: "consistent w u"
  shows "\<exists>w' u'. detachSurfaceTexture (w, u) = Inr (w', u')
     \<and> detachSurfaceTexture (w', u') = Inr (w', u')
     \<and> mSurfaceTexture u' = None
     \<and> (\<forall>s. (s \<in> sources w') = (s \<in> sources w \<and> mSurfaceTexture u \<noteq> Some s))
     \<and> slot_at (mImageSlots u') (mCurrentSlot u') =
         (slot_at (mImageSlots u) (mCurrentSlot u))\<lparr>mTextureRelease := None\<rparr>"
proof -
  define w1 where "w1 = (case mSurfaceTexture u of None \<Rightarrow> w
      | Some s \<Rightarrow> w\<lparr>sources := sources w - {s}\<rparr>)"
  define u1 where "u1 = u\<lparr>mSurfaceTexture := None\<rparr>"
  define c where "c = mRenderState u"
  define k where "k = mCurrentSlot u"
  from ok have rs: "release_source (mSurfaceTexture u) w = Inr w1"
    by (auto simp: consistent_def release_source_def w1_def split: option.splits)
  have rs1: "release_source None x = Inr x" for x by (simp add: release_source_def)
  have src1: "\<forall>s. (s \<in> sources w1) = (s \<in> sources w \<and> mSurfaceTexture u \<noteq> Some s)"
    by (auto simp: w1_def split: option.splits)
  have held1: "held w1 h = held w h" for h
    by (simp add: w1_def held_def split: option.splits)
  show ?thesis
  proof (cases "map_of (mImageSlots u) k")
    case None
    have first: "detachSurfaceTexture (w, u) = Inr (w1, u1)"
      using rs None by (simp add: detachSurfaceTexture_def u1_def k_def)
    have "u1\<lparr>mSurfaceTexture := None\<rparr> = u1" by (simp add: u1_def)
    then have second: "detachSurfaceTexture (w1, u1) = Inr (w1, u1)"
      using None by (simp add: detachSurfaceTexture_def rs1 u1_def k_def)
    have "slot_at (mImageSlots u1) (mCurrentSlot u1) =
         (slot_at (mImageSlots u) (mCurrentSlot u))\<lparr>mTextureRelease := None\<rparr>"
      using None by (simp add: slot_at_def u1_def k_def ImageSlot_init_def)
    moreover have "mSurfaceTexture u1 = None" by (simp add: u1_def)
    ultimately show ?thesis using first second src1 by blast
  next
    case (Some slot)
    define slot3 where "slot3 = slot\<lparr>mTextureRelease := None\<rparr>"
    define w3 where "w3 = (case mTextureRelease slot of None \<Rightarrow> w1
      | Some h \<Rightarrow> gpu_call (Some c) (drop_ref h (gpu_call (Some c)
          (w1\<lparr>textures := (textures w1)[h := (textures w1 ! h)\<lparr>queueOwned := False\<rparr>]\<rparr>))))"
    define u3 where "u3 = u1\<lparr>mImageSlots := AList.update k slot3 (mImageSlots u)\<rparr>"
    have inner: "\<exists>w2. releaseQueueOwnership c (w1, slot) = Inr (w2, slot)
        \<and> clear (Some c) (w2, slot) = Inr (w3, slot3)"
    proof (cases "mTextureRelease slot")
      case None
      then show ?thesis
        by (simp add: releaseQueueOwnership_def clear_empty w3_def slot3_def)
    next
      case (Some h)
      from handle_of_slot [OF \<open>map_of (mImageSlots u) k = Some slot\<close> Some] ok
      have "held w h" by (simp add: consistent_def list_all_iff)
      then have h1: "held w1 h" by (simp add: held1)
      define w2 where "w2 = gpu_call (Some c)
          (w1\<lparr>textures := (textures w1)[h := (textures w1 ! h)\<lparr>queueOwned := False\<rparr>]\<rparr>)"
      have rq: "releaseQueueOwnership c (w1, slot) = Inr (w2, slot)"
        using Some h1 by (simp add: releaseQueueOwnership_def held_def w2_def)
      have "held w2 h" using h1 by (simp add: w2_def held_gpu_call) (simp add: held_def)
      with Some have "clear (Some c) (w2, slot) = Inr (w3, slot3)"
        by (simp add: clear_held w3_def slot3_def w2_def)
      with rq show ?thesis by blast
    qed
    then obtain w2 where rq: "releaseQueueOwnership c (w1, slot) = Inr (w2, slot)"
      and cl: "clear (Some c) (w2, slot) = Inr (w3, slot3)" by blast
    have first: "detachSurfaceTexture (w, u) = Inr (w3, u3)"
      using rs Some rq cl
      by (simp add: detachSurfaceTexture_def Let_def u1_def [symmetric] k_def [symmetric]
          c_def [symmetric] u3_def)
    have look: "map_of (mImageSlots u3) k = Some slot3"
      by (simp add: u3_def AList.update_conv')
    have none3: "mTextureRelease slot3 = None" by (simp add: slot3_def)
    have same: "u3\<lparr>mSurfaceTexture := None, mImageSlots := AList.update k slot3 (mImageSlots u3)\<rparr> = u3"
      by (simp add: u3_def u1_def AList.update_last)
    have fields: "mSurfaceTexture u3 = None" "mCurrentSlot u3 = k" "mRenderState u3 = c"
      by (simp_all add: u3_def u1_def k_def c_def)
    have second: "detachSurfaceTexture (w3, u3) = Inr (w3, u3)"
      using look none3 same
      by (simp add: detachSurfaceTexture_def Let_def fields rs1 releaseQueueOwnership_def
          clear_empty)
    have "\<forall>s. (s \<in> sources w3) = (s \<in> sources w \<and> mSurfaceTexture u \<noteq> Some s)"
      using src1 by (simp add: w3_def gpu_call_def drop_ref_def split: option.splits)
    moreover have "slot_at (mImageSlots u3) (mCurrentSlot u3) =
         (slot_at (mImageSlots u) (mCurrentSlot u))\<lparr>mTextureRelease := None\<rparr>"
      using look Some by (simp add: slot_at_def fields slot3_def k_def [symmetric])
    ultimately show ?thesis using first second fields(1) by blast
  qed
qed

theorem updateLayer_latches_latest_witness:
  "\<exists>w' u'. updateLayer True 0 (0, 0, 0, 0) None
       (world1\<lparr>producerFrames := [B1, B2]\<rparr>, (updateTexImage ^^ Suc 2) attached1) = Inr (w', u')
     \<and> resolutions w' = [(11, 1), (12, 1)]
     \<and> mUpdateTexImage u' = False
     \<and> map_of (mImageSlots u') 0 = Some \<lparr>mDataspace = 1, mBuffer = Some 12, mTextureRelease = Some 1\<rparr>
     \<and> updateLayer True 0 (0, 0, 0, 0) None (w'\<lparr>producerFrames := [B1]\<rparr>, u')
         = Inr (w'\<lparr>producerFrames := [B1]\<rparr>, u')"
proof -
  let ?w = "world1\<lparr>producerFrames := [B1, B2]\<rparr>"
  have src: "mSurfaceTexture attached1 = Some 8" and lay: "mLayer attached1 = Some 5"
    by (simp_all add: attached1_def attached0_def)
  have fr: "producerFrames ?w \<noteq> []" by simp
  have ok: "slot_ok ?w (slot_at (mImageSlots attached1) (frameSlot (last (producerFrames ?w))))"
    by (simp add: slot_ok_def slot_at_def attached1_def B2_def held_def world1_def)
  have f: "frameSlot (last (producerFrames ?w)) = 0" "frameBuffer (last (producerFrames ?w)) = 12"
    "frameDataspace (last (producerFrames ?w)) = 1" "resolutions ?w = [(11, 1)]"
    by (simp_all add: B2_def world1_def world0_def)
  have cs: "create_succeeds ?w" by (simp add: create_succeeds_def world1_def world0_def)
  from updateLayer_latches_latest [OF src lay fr ok, of True 0 "(0, 0, 0, 0)" None 2 True 0
      "(0, 0, 0, 0)" None]
  obtain w' u' where
    run: "updateLayer True 0 (0, 0, 0, 0) None (?w, (updateTexImage ^^ Suc 2) attached1) = Inr (w', u')"
    and res: "resolutions w' = [(11, 1), (12, 1)]"
    and flag: "mUpdateTexImage u' = False"
    and again: "\<forall>fs. updateLayer True 0 (0, 0, 0, 0) None (w'\<lparr>producerFrames := fs\<rparr>, u')
        = Inr (w'\<lparr>producerFrames := fs\<rparr>, u')"
    unfolding f using cs by auto
  have "updateLayer True 0 (0, 0, 0, 0) None (?w, updateTexImage attached1)
      = Inr (world1\<lparr>textures := [\<lparr>texBuffer = 11, texDataspace = 1, texContext = 3,
                 cacheRef = False, queueOwned = True\<rparr>,
               \<lparr>texBuffer = 12, texDataspace = 1, texContext = 3,
                 cacheRef = True, queueOwned = True\<rparr>],
             layers := [5 \<mapsto> \<lparr>boundImage = Some 1, boundTextureTransform = 0,
               boundCropRect = (0, 0, 0, 0), boundForceFilter = True\<rparr>],
             resolutions := [(11, 1), (12, 1)], gpuCalls := 3\<rparr>,
           attached1\<lparr>mImageSlots :=
             [(0, \<lparr>mDataspace = 1, mBuffer = Some 12, mTextureRelease = Some 1\<rparr>)]\<rparr>)"
    by (simp add: updateLayer_def updateTexImage_def createIfNeeded_def cache_hit_def
        create_succeeds_def clear_def gpu_call_def drop_ref_def held_def slot_at_def Let_def
        world0_def world1_def attached0_def attached1_def updater0_def B2_def)
  moreover have fp: "(updateTexImage ^^ Suc 2) attached1 = updateTexImage attached1"
    by (rule updateTexImage_funpow)
  ultimately have "mImageSlots u' = [(0, \<lparr>mDataspace = 1, mBuffer = Some 12, mTextureRelease = Some 1\<rparr>)]"
    using run [unfolded fp] by simp
  then have "map_of (mImageSlots u') 0
      = Some \<lparr>mDataspace = 1, mBuffer = Some 12, mTextureRelease = Some 1\<rparr>"
    by simp
  with run res flag again show ?thesis by blast
qed

theorem detachSurfaceTexture_idempotent_witness:
  "consistent world1 attached1
   \<and> (\<exists>w' u'. detachSurfaceTexture (world1, attached1) = Inr (w', u')
        \<and> detachSurfaceTexture (w', u') = Inr (w', u')
        \<and> mSurfaceTexture u' = None \<and> sources w' = {}
        \<and> mImageSlots u' = [(0, \<lparr>mDataspace = 1, mBuffer = Some 11, mTextureRelease = None\<rparr>)])"
proof -
  have run: "detachSurfaceTexture (world1, attached1)
      = Inr (world1\<lparr>textures := [\<lparr>texBuffer = 11, texDataspace = 1, texContext = 3,
                 cacheRef = False, queueOwned = False\<rparr>],
               sources := {}, gpuCalls := 3\<rparr>,
             attached1\<lparr>mSurfaceTexture := None, mImageSlots :=
               [(0, \<lparr>mDataspace = 1, mBuffer = Some 11, mTextureRelease = None\<rparr>)]\<rparr>)"
    by (simp add: detachSurfaceTexture_def release_source_def releaseQueueOwnership_def clear_def
        gpu_call_def drop_ref_def held_def Let_def world0_def world1_def attached0_def
        attached1_def updater0_def)
  from detachSurfaceTexture_idempotent [OF consistent_example] obtain w' u' where
    "detachSurfaceTexture (world1, attached1) = Inr (w', u')"
    "detachSurfaceTexture (w', u') = Inr (w', u')" "mSurfaceTexture u' = None"
    by blast
  with run consistent_example show ?thesis by (auto simp: world1_def world0_def)
qed

section \<open>Consistency is kept by the modelled operations\<close>

text \<open>
  The hypothesis of the teardown and detach theorems holds for a new updater and is kept
  by \<open>updateLayer\<close>, \<open>detachSurfaceTexture\<close>, \<open>destroyLayer\<close> and \<open>onContextDestroyed\<close>
  whenever they succeed.
\<close>

lemma slot_at_Cons:
  "slot_at ((k', s') # rest) k = (if k = k' then s' else slot_at rest k)"
  by (simp add: slot_at_def)

lemma handle_of_slot_at:
  "mTextureRelease (slot_at slots k) = Some h \<Longrightarrow> h \<in> set (cached_handles slots)"
  using handle_of_slot [of slots k "slot_at slots k" h]
  by (auto simp: slot_at_def ImageSlot_init_def split: option.splits)

lemma cached_handles_update:
  assumes "distinct (cached_handles slots)"
    and "\<forall>h. mTextureRelease s = Some h \<longrightarrow> h \<notin> set (cached_handles slots)"
  shows "distinct (cached_handles (AList.update k s slots))
     \<and> set (cached_handles (AList.update k s slots))
         = (set (cached_handles slots) - set_option (mTextureRelease (slot_at slots k)))
           \<union> set_option (mTextureRelease s)"
  using assms
proof (induction slots)
  case Nil
  show ?case
    by (auto simp: cached_handles_Cons cached_handles_Nil slot_at_def ImageSlot_init_def
        split: option.splits)
next
  case (Cons e slots)
  obtain k' s' where e: "e = (k', s')" by (cases e)
  show ?case
  proof (cases "k = k'")
    case True
    with Cons.prems e show ?thesis
      by (auto simp: cached_handles_Cons slot_at_Cons split: option.splits)
  next
    case False
    from Cons.prems e have d: "distinct (cached_handles slots)"
      and n: "\<forall>h. mTextureRelease s = Some h \<longrightarrow> h \<notin> set (cached_handles slots)"
      by (auto simp: cached_handles_Cons split: option.splits)
    note IH = Cons.IH [OF d n]
    have old: "mTextureRelease (slot_at slots k) = Some g \<Longrightarrow> g \<in> set (cached_handles slots)" for g
      by (rule handle_of_slot_at)
    from False e IH Cons.prems old show ?thesis
      by (auto simp: cached_handles_Cons slot_at_Cons split: option.splits)
  qed
qed


lemma createIfNeeded_effect:
  assumes ok: "slot_ok w slot"
    and run: "createIfNeeded b d fc c (w, slot) = Inr (img, w', slot')"
  shows "layers w' = layers w \<and> sources w' = sources w
     \<and> ((slot' = slot \<and> mTextureRelease slot \<noteq> None \<and> img \<noteq> None
           \<and> (\<forall>g. held w' g = held w g))
        \<or> (mTextureRelease slot' = Some (length (textures w)) \<and> img \<noteq> None
           \<and> (\<forall>g. held w' g = (g = length (textures w)
                  \<or> held w g \<and> mTextureRelease slot \<noteq> Some g)))
        \<or> (mTextureRelease slot' = None \<and> img = None
           \<and> (\<forall>g. held w' g = (held w g \<and> mTextureRelease slot \<noteq> Some g))))"
proof -
  from createIfNeeded_outcome [OF ok, of b d fc c] run
  have keep: "layers w' = layers w" "sources w' = sources w"
    and alt: "if cache_hit slot b d fc
        then img = mTextureRelease slot \<and> slot' = slot \<and> textures w' = textures w
           \<and> gpuOutcomes w' = gpuOutcomes w
        else gpuOutcomes w' = tl (gpuOutcomes w)
           \<and> (\<forall>g < length (textures w). textures w' ! g =
                 (if mTextureRelease slot = Some g then (textures w ! g)\<lparr>cacheRef := False\<rparr>
                  else textures w ! g))
           \<and> (if create_succeeds w
              then img = Some (length (textures w))
                 \<and> slot' = \<lparr>mDataspace = d, mBuffer = Some b,
                             mTextureRelease = Some (length (textures w))\<rparr>
                 \<and> length (textures w') = Suc (length (textures w))
                 \<and> textures w' ! length (textures w)
                      = \<lparr>texBuffer = b, texDataspace = d, texContext = c,
                         cacheRef = True, queueOwned = True\<rparr>
              else img = None \<and> slot' = slot\<lparr>mTextureRelease := None\<rparr>
                 \<and> length (textures w') = length (textures w))"
    by auto
  show ?thesis
  proof (cases "cache_hit slot b d fc")
    case True
    with alt have "slot' = slot" "mTextureRelease slot \<noteq> None" "img \<noteq> None"
      "\<forall>g. held w' g = held w g"
      by (auto simp: cache_hit_def held_def)
    with keep show ?thesis by simp
  next
    case False
    with alt have old: "\<forall>g < length (textures w). textures w' ! g =
        (if mTextureRelease slot = Some g then (textures w ! g)\<lparr>cacheRef := False\<rparr>
         else textures w ! g)"
      by simp
    have below: "g < length (textures w) \<Longrightarrow>
        cacheRef (textures w' ! g) = (cacheRef (textures w ! g) \<and> mTextureRelease slot \<noteq> Some g)" for g
      using old by auto
    show ?thesis
    proof (cases "create_succeeds w")
      case True
      with alt False have img: "img = Some (length (textures w))"
        and s': "mTextureRelease slot' = Some (length (textures w))"
        and len: "length (textures w') = Suc (length (textures w))"
        and new: "cacheRef (textures w' ! length (textures w))"
        by simp_all
      have "held w' g = (g = length (textures w) \<or> held w g \<and> mTextureRelease slot \<noteq> Some g)" for g
      proof (cases "g < length (textures w)")
        case True
        with below [OF True] len show ?thesis by (auto simp: held_def)
      next
        case False
        with len new show ?thesis by (auto simp: held_def less_Suc_eq)
      qed
      with keep img s' show ?thesis by simp
    next
      case no: False
      with alt False have img: "img = None" and s': "mTextureRelease slot' = None"
        and len: "length (textures w') = length (textures w)"
        by simp_all
      have "held w' g = (held w g \<and> mTextureRelease slot \<noteq> Some g)" for g
      proof (cases "g < length (textures w)")
        case True
        with below [OF True] len show ?thesis by (auto simp: held_def)
      next
        case False
        with len show ?thesis by (auto simp: held_def)
      qed
      with keep img s' show ?thesis by simp
    qed
  qed
qed

lemma slot_ok_of_consistent: "consistent w u \<Longrightarrow> slot_ok w (slot_at (mImageSlots u) k)"
  using handle_of_slot_at [of "mImageSlots u" k]
  by (auto simp: slot_ok_def consistent_def list_all_iff split: option.splits)

lemma held_bound: "held w g \<Longrightarrow> g < length (textures w)"
  by (simp add: held_def)

lemma consistent_updateLayer:
  assumes ok: "consistent w u" and run: "updateLayer ff tt cr li (w, u) = Inr (w', u')"
  shows "consistent w' u'"
proof (cases "mUpdateTexImage u \<and> mSurfaceTexture u \<noteq> None \<and> mLayer u \<noteq> None
    \<and> producerFrames w \<noteq> []")
  case False
  with run have "w' = w" "u' = u"
    by (auto simp: updateLayer_def split: option.splits if_splits)
  with ok show ?thesis by simp
next
  case True
  then obtain src l where src: "mSurfaceTexture u = Some src" and lay: "mLayer u = Some l" by auto
  define f where "f = last (producerFrames w)"
  define k where "k = frameSlot f"
  define w0 where "w0 = w\<lparr>producerFrames := []\<rparr>"
  define slot where "slot = slot_at (mImageSlots u) k"
  from True src lay run obtain img w1 slot1 where
    cr: "createIfNeeded (frameBuffer f) (frameDataspace f) False (mRenderState u) (w0, slot)
        = Inr (img, w1, slot1)"
    and w': "w' = (case img of None \<Rightarrow> w1
        | Some h \<Rightarrow> w1\<lparr>layers := (layers w1)(l \<mapsto> \<lparr>boundImage = Some h,
            boundTextureTransform = tt, boundCropRect = cr, boundForceFilter = ff\<rparr>)\<rparr>)"
    and slots': "mImageSlots u' = AList.update k slot1 (mImageSlots u)"
    and same: "mLayer u' = mLayer u" "mSurfaceTexture u' = mSurfaceTexture u"
    by (auto simp: updateLayer_def Let_def f_def [symmetric] k_def [symmetric] w0_def [symmetric]
        slot_def [symmetric] split: sum.splits option.splits)
  have held0: "held w0 g = held w g" for g by (simp add: held_def w0_def)
  have tex0: "textures w0 = textures w" "layers w0 = layers w" "sources w0 = sources w"
    by (simp_all add: w0_def)
  have "slot_ok w0 slot"
    using slot_ok_of_consistent [OF ok, of k]
    by (simp add: slot_ok_def slot_def held0 split: option.splits)
  from createIfNeeded_effect [OF this cr]
  have frame: "layers w1 = layers w" "sources w1 = sources w"
    and alt: "(slot1 = slot \<and> mTextureRelease slot \<noteq> None \<and> img \<noteq> None
           \<and> (\<forall>g. held w1 g = held w g))
        \<or> (mTextureRelease slot1 = Some (length (textures w)) \<and> img \<noteq> None
           \<and> (\<forall>g. held w1 g = (g = length (textures w)
                  \<or> held w g \<and> mTextureRelease slot \<noteq> Some g)))
        \<or> (mTextureRelease slot1 = None \<and> img = None
           \<and> (\<forall>g. held w1 g = (held w g \<and> mTextureRelease slot \<noteq> Some g)))"
    by (simp_all add: held0 tex0)
  have held': "held w' g = held w1 g" for g
    by (simp add: held_def w' split: option.splits)
  from ok have keys: "distinct (map fst (mImageSlots u))"
    and dist: "distinct (cached_handles (mImageSlots u))"
    and all: "list_all (held w) (cached_handles (mImageSlots u))"
    and srcs: "src \<in> sources w"
    and lays: "l \<in> dom (layers w)"
    using src lay by (simp_all add: consistent_def)
  have keys': "distinct (map fst (mImageSlots u'))"
    using keys by (simp add: slots' AList.distinct_update)
  have rest: "(case mLayer u' of None \<Rightarrow> True | Some l \<Rightarrow> l \<in> dom (layers w'))
      \<and> (case mSurfaceTexture u' of None \<Rightarrow> True | Some src \<Rightarrow> src \<in> sources w')"
    using lay src srcs lays frame by (auto simp: same w' split: option.splits)
  from alt consider
    (hit) "slot1 = slot" "mTextureRelease slot \<noteq> None" "\<forall>g. held w1 g = held w g"
    | (made) "mTextureRelease slot1 = Some (length (textures w))"
        "\<forall>g. held w1 g = (g = length (textures w) \<or> held w g \<and> mTextureRelease slot \<noteq> Some g)"
    | (failed) "mTextureRelease slot1 = None"
        "\<forall>g. held w1 g = (held w g \<and> mTextureRelease slot \<noteq> Some g)"
    by (elim disjE conjE) simp_all
  then show ?thesis
  proof cases
    case hit
    then have "map_of (mImageSlots u) k = Some slot"
      by (auto simp: slot_def slot_at_def ImageSlot_init_def split: option.splits)
    then have "mImageSlots u' = mImageSlots u"
      using hit by (simp add: slots' AList.update_triv)
    with dist all hit keys' rest show ?thesis
      by (simp add: consistent_def held' list_all_iff)
  next
    case made
    have fresh: "\<forall>h. mTextureRelease slot1 = Some h \<longrightarrow> h \<notin> set (cached_handles (mImageSlots u))"
      using made all held_bound [of w "length (textures w)"] by (auto simp: list_all_iff)
    from cached_handles_update [OF dist fresh, of k]
    have d': "distinct (cached_handles (mImageSlots u'))"
      and set': "set (cached_handles (mImageSlots u'))
          = (set (cached_handles (mImageSlots u)) - set_option (mTextureRelease slot))
            \<union> {length (textures w)}"
      using made by (simp_all add: slots' slot_def)
    have "list_all (held w') (cached_handles (mImageSlots u'))"
      using all made by (auto simp: list_all_iff set' held')
    with d' keys' rest show ?thesis by (simp add: consistent_def)
  next
    case failed
    have none: "\<forall>h. mTextureRelease slot1 = Some h \<longrightarrow> h \<notin> set (cached_handles (mImageSlots u))"
      using failed by simp
    from cached_handles_update [OF dist none, of k]
    have d': "distinct (cached_handles (mImageSlots u'))"
      and set': "set (cached_handles (mImageSlots u'))
          = set (cached_handles (mImageSlots u)) - set_option (mTextureRelease slot)"
      using failed by (simp_all add: slots' slot_def)
    have "list_all (held w') (cached_handles (mImageSlots u'))"
      using all failed by (auto simp: list_all_iff set' held')
    with d' keys' rest show ?thesis by (simp add: consistent_def)
  qed
qed

lemma consistent_detachSurfaceTexture:
  assumes ok: "consistent w u" and run: "detachSurfaceTexture (w, u) = Inr (w', u')"
  shows "consistent w' u'"
proof -
  define k where "k = mCurrentSlot u"
  from ok have keys: "distinct (map fst (mImageSlots u))"
    and dist: "distinct (cached_handles (mImageSlots u))"
    and all: "list_all (held w) (cached_handles (mImageSlots u))"
    and lay: "case mLayer u of None \<Rightarrow> True | Some l \<Rightarrow> l \<in> dom (layers w)"
    by (simp_all add: consistent_def)
  from run obtain w1 where rs: "release_source (mSurfaceTexture u) w = Inr w1"
    by (auto simp: detachSurfaceTexture_def split: sum.splits)
  then have w1: "layers w1 = layers w" "\<forall>g. held w1 g = held w g"
    by (auto simp: release_source_def held_def split: option.splits if_splits)
  show ?thesis
  proof (cases "map_of (mImageSlots u) k")
    case None
    with run rs have "w' = w1" "u' = u\<lparr>mSurfaceTexture := None\<rparr>"
      by (auto simp: detachSurfaceTexture_def k_def)
    with keys dist all lay w1 show ?thesis
      by (simp add: consistent_def list_all_iff split: option.splits)
  next
    case (Some slot)
    with run rs obtain w2 slot2 slot3 where
      rq: "releaseQueueOwnership (mRenderState u) (w1, slot) = Inr (w2, slot2)"
      and cl: "clear (Some (mRenderState u)) (w2, slot2) = Inr (w', slot3)"
      and u': "u' = u\<lparr>mSurfaceTexture := None, mImageSlots := AList.update k slot3 (mImageSlots u)\<rparr>"
      by (auto simp: detachSurfaceTexture_def Let_def k_def [symmetric] split: sum.splits)
    from releaseQueueOwnership_effect [OF rq] have s2: "slot2 = slot"
      and w2: "layers w2 = layers w1" "\<forall>g. held w2 g = held w1 g" by simp_all
    from clear_effect [OF cl] s2 have s3: "slot3 = slot\<lparr>mTextureRelease := None\<rparr>"
      and w3: "layers w' = layers w2"
        "\<forall>g. held w' g = (held w2 g \<and> mTextureRelease slot \<noteq> Some g)" by simp_all
    have sl: "slot_at (mImageSlots u) k = slot" using Some by (simp add: slot_at_def)
    have none: "\<forall>h. mTextureRelease slot3 = Some h \<longrightarrow> h \<notin> set (cached_handles (mImageSlots u))"
      by (simp add: s3)
    from cached_handles_update [OF dist none, of k]
    have d': "distinct (cached_handles (mImageSlots u'))"
      and set': "set (cached_handles (mImageSlots u'))
          = set (cached_handles (mImageSlots u)) - set_option (mTextureRelease slot)"
      by (simp_all add: u' sl s3)
    have "list_all (held w') (cached_handles (mImageSlots u'))"
      using all w1 w2 w3 by (auto simp: list_all_iff set')
    moreover have "distinct (map fst (mImageSlots u'))"
      using keys by (simp add: u' AList.distinct_update)
    ultimately show ?thesis
      using d' lay w1 w2 w3 by (simp add: consistent_def u' split: option.splits)
  qed
qed

lemma map_fst_cleared: "map fst (cleared slots) = map fst slots"
  by (induction slots) (auto simp: cleared_def)

lemma consistent_teardown:
  assumes ok: "consistent w u" and run: "teardown c (w, u) = Inr (w', u')"
  shows "consistent w' u'"
proof -
  from ok have keys: "distinct (map fst (mImageSlots u))"
    and dist: "distinct (cached_handles (mImageSlots u))"
    and all: "list_all (held w) (cached_handles (mImageSlots u))"
    and src: "case mSurfaceTexture u of None \<Rightarrow> True | Some s \<Rightarrow> s \<in> sources w"
    by (simp_all add: consistent_def)
  define wa where "wa = drop_refs c (cached_handles (mImageSlots u)) w"
  have sa: "sources wa = sources w"
  proof -
    have "sources (drop_refs c hs x) = sources x" for hs x
      by (induction hs arbitrary: x) (auto simp: gpu_call_def drop_ref_def split: option.splits)
    then show ?thesis by (simp add: wa_def)
  qed
  from run clear_all_ok [OF dist all, of c]
  have rl: "release_layer (wa, u\<lparr>mImageSlots := cleared (mImageSlots u)\<rparr>) = Inr (w', u')"
    by (simp add: teardown_def wa_def)
  then have "mImageSlots u' = cleared (mImageSlots u)" "mLayer u' = None"
    "mSurfaceTexture u' = mSurfaceTexture u" "sources w' = sources wa"
    by (auto simp: release_layer_def split: option.splits if_splits)
  with keys src sa show ?thesis
    by (simp add: consistent_def cached_handles_cleared map_fst_cleared split: option.splits)
qed

lemma consistent_destroyLayer:
  "consistent w u \<Longrightarrow> destroyLayer (w, u) = Inr (w', u') \<Longrightarrow> consistent w' u'"
  using consistent_teardown [of w u "Some (mRenderState u)" w' u'] by (simp add: destroyLayer_def)

lemma consistent_onContextDestroyed:
  "consistent w u \<Longrightarrow> onContextDestroyed (w, u) = Inr (w', u') \<Longrightarrow> consistent w' u'"
  using consistent_teardown [of w u None w' u'] by (simp add: onContextDestroyed_def)

lemma consistent_initial:
  "consistent \<lparr>textures = [], layers = ls, sources = ss, producerFrames = fs,
     resolutions = [], gpuCalls = 0, gpuOutcomes = os\<rparr> updater0"
  by (simp add: consistent_def updater0_def cached_handles_Nil)

text \<open>
  The scenario of the specification, section 8, on one cache entry: buffer 11 is
  delivered, then delivered again, then buffer 12 is delivered, all with dataspace 1. The
  second resolution returns the first handle and creates nothing; the third drops the
  cache's reference to it and creates the second handle.
\<close>

lemma slot_cache_scenario:
  "createIfNeeded 11 1 False 3 (world0, ImageSlot_init)
     = Inr (Some 0, world1\<lparr>layers := layers world0\<rparr>,
            \<lparr>mDataspace = 1, mBuffer = Some 11, mTextureRelease = Some 0\<rparr>)"
  "createIfNeeded 11 1 False 3 (world1, \<lparr>mDataspace = 1, mBuffer = Some 11, mTextureRelease = Some 0\<rparr>)
     = Inr (Some 0, world1\<lparr>resolutions := [(11, 1), (11, 1)]\<rparr>,
            \<lparr>mDataspace = 1, mBuffer = Some 11, mTextureRelease = Some 0\<rparr>)"
  "createIfNeeded 12 1 False 3 (world1, \<lparr>mDataspace = 1, mBuffer = Some 11, mTextureRelease = Some 0\<rparr>)
     = Inr (Some 1,
            world1\<lparr>textures := [\<lparr>texBuffer = 11, texDataspace = 1, texContext = 3,
                cacheRef = False, queueOwned = True\<rparr>,
              \<lparr>texBuffer = 12, texDataspace = 1, texContext = 3,
                cacheRef = True, queueOwned = True\<rparr>],
              resolutions := [(11, 1), (12, 1)], gpuCalls := 3\<rparr>,
            \<lparr>mDataspace = 1, mBuffer = Some 12, mTextureRelease = Some 1\<rparr>)"
  by (simp_all add: createIfNeeded_def cache_hit_def create_succeeds_def clear_def gpu_call_def
      drop_ref_def held_def Let_def world0_def world1_def ImageSlot_init_def)

end
